theory Spec2Isabelle
  imports Main "HOL-Library.Char_ord" "HOL-Library.List_Lexorder" "HOL-Library.AList"
begin

section \<open>The stale-key diff\<close>

text \<open>
  The package \<^verbatim>\<open>sets\<close> (k8s.io/apimachinery) is a library outside the repository,
  modelled from its documentation: \<^verbatim>\<open>sets.String\<close> is a \<^verbatim>\<open>map[string]Empty\<close>,
  \<^verbatim>\<open>NewString\<close> inserts every item, \<^verbatim>\<open>Difference\<close> keeps the keys of the receiver
  that the argument does not have, and \<^verbatim>\<open>List\<close> returns the keys as a sorted slice
  (Go compares strings bytewise, which is the lexicographic order of \<^typ>\<open>string\<close>
  over the byte order of \<^typ>\<open>char\<close>).
\<close>

definition sets_NewString :: "string list \<Rightarrow> string set" where
  "sets_NewString items = set items"

definition sets_Difference :: "string set \<Rightarrow> string set \<Rightarrow> string set" where
  "sets_Difference s1 s2 = {key \<in> s1. key \<notin> s2}"

definition sets_List :: "string set \<Rightarrow> string list" where
  "sets_List s = sorted_list_of_set s"

text \<open>\<^verbatim>\<open>getIRKeysToDelete\<close> (runner.go, lines 505-512).\<close>

definition getIRKeysToDelete :: "string list \<Rightarrow> string list \<Rightarrow> string list" where
  "getIRKeysToDelete curKeys newKeys =
     (let curSet = sets_NewString curKeys;
          newSet = sets_NewString newKeys;
          delSet = sets_Difference curSet newSet
      in sets_List delSet)"

section \<open>Data model of the reconciliation engine\<close>

text \<open>
  Modelled from the spec: the watchable map behind \<^verbatim>\<open>r.InfraIR\<close>, \<^verbatim>\<open>r.XdsIR\<close> and
  every status store, which is not among the sources. Section 6 of the specification
  gives its interface: \<^verbatim>\<open>Load(key)\<close>, \<^verbatim>\<open>LoadAll()\<close>, \<^verbatim>\<open>Store(key, value)\<close> and
  \<^verbatim>\<open>Delete(key)\<close> of a mapping from keys to values. A store is an association
  list; the order of the list is the order in which Go's \<^verbatim>\<open>range\<close> happens to visit
  the map that \<^verbatim>\<open>LoadAll\<close> returns, and no statement below depends on it. The engine
  runs one handler at a time and is the only writer of these stores (section 5), so
  a handler is a function from the state before it to the state after it.
\<close>

type_synonym ('k, 'v) store = "('k \<times> 'v) list"

definition watchable_LoadAll :: "('k, 'v) store \<Rightarrow> ('k \<times> 'v) list" where
  "watchable_LoadAll m = m"

definition watchable_Store :: "'k \<Rightarrow> 'v \<Rightarrow> ('k, 'v) store \<Rightarrow> ('k, 'v) store" where
  "watchable_Store key val m = AList.update key val m"

definition watchable_Delete :: "'k \<Rightarrow> ('k, 'v) store \<Rightarrow> ('k, 'v) store" where
  "watchable_Delete key m = AList.delete key m"

definition watchable_Load :: "('k, 'v) store \<Rightarrow> 'k \<Rightarrow> 'v option" where
  "watchable_Load m key = map_of m key"

definition keys :: "('k, 'v) store \<Rightarrow> 'k set" where
  "keys m = fst ` set m"

type_synonym error = string

type_synonym NamespacedName = "string \<times> string"

type_synonym GroupVersionKind = "string \<times> string \<times> string"

type_synonym NamespacedNameAndGVK = "NamespacedName \<times> GroupVersionKind"

text \<open>
  A resource of a translation result, as far as the engine reads it: its namespace,
  its name and its status. The pointers that the engine follows (the bundles of a
  snapshot, the resources and the entries of a translation result) are taken to be
  non-nil.
\<close>

record 's Object =
  Namespace :: string
  Name :: string
  Status :: 's

text \<open>
  Modelled from the spec: \<^verbatim>\<open>utils.NamespacedName\<close>, which is not among the sources;
  it gives the namespaced identity of a resource (section 3), its namespace and name.
\<close>

definition utils_NamespacedName :: "('s, 'z) Object_scheme \<Rightarrow> NamespacedName" where
  "utils_NamespacedName obj = (Namespace obj, Name obj)"

text \<open>
  An extension server policy is an \<^verbatim>\<open>unstructured.Unstructured\<close>: its status is the
  dynamically typed \<^verbatim>\<open>Object["status"]\<close>. The engine calls
  \<^verbatim>\<open>reflect.ValueOf(...).IsZero()\<close> on it and then asserts the type
  \<^verbatim>\<open>map[string]any\<close>. \<open>NilValue\<close> is the nil interface (also what a missing key
  reads as), \<open>MapValue None\<close> a nil map, \<open>MapValue (Some m)\<close> a map with content \<open>m\<close>,
  \<open>OtherValue z\<close> a value of any other dynamic type, \<open>z\<close> telling whether it is the
  zero value of that type.
\<close>

datatype 'm any_value = NilValue | MapValue "'m option" | OtherValue bool

record 'm Unstructured =
  Namespace_u :: string
  Name_u :: string
  GroupVersionKind_u :: GroupVersionKind
  Object_status :: "'m any_value"

record ('i, 'x, 's, 'm) TranslationResult =
  InfraIR_result :: "(string \<times> 'i) list"
  XdsIR_result :: "(string \<times> 'x) list"
  Gateways :: "'s Object list"
  HTTPRoutes :: "'s Object list"
  GRPCRoutes :: "'s Object list"
  TLSRoutes :: "'s Object list"
  TCPRoutes :: "'s Object list"
  UDPRoutes :: "'s Object list"
  BackendTLSPolicies :: "'s Object list"
  ClientTrafficPolicies :: "'s Object list"
  BackendTrafficPolicies :: "'s Object list"
  SecurityPolicies :: "'s Object list"
  EnvoyExtensionPolicies :: "'s Object list"
  Backends :: "'s Object list"
  ExtensionServerPolicies :: "'m Unstructured list"

text \<open>
  The status stores of \<^verbatim>\<open>message.ProviderResources\<close> that the engine writes. The
  status payloads are opaque to the engine; one type \<open>'s\<close> stands for them.
\<close>

record 's ProviderResources =
  GatewayStatuses :: "(NamespacedName, 's) store"
  HTTPRouteStatuses :: "(NamespacedName, 's) store"
  GRPCRouteStatuses :: "(NamespacedName, 's) store"
  TLSRouteStatuses :: "(NamespacedName, 's) store"
  TCPRouteStatuses :: "(NamespacedName, 's) store"
  UDPRouteStatuses :: "(NamespacedName, 's) store"
  BackendTLSPolicyStatuses :: "(NamespacedName, 's) store"
  ClientTrafficPolicyStatuses :: "(NamespacedName, 's) store"
  BackendTrafficPolicyStatuses :: "(NamespacedName, 's) store"
  SecurityPolicyStatuses :: "(NamespacedName, 's) store"
  EnvoyExtensionPolicyStatuses :: "(NamespacedName, 's) store"
  ExtensionPolicyStatuses :: "(NamespacedNameAndGVK, 's) store"
  BackendStatuses :: "(NamespacedName, 's) store"

text \<open>
  \<^verbatim>\<open>StatusesToDelete\<close> (lines 321-337): each \<^verbatim>\<open>map[key]bool\<close> is used as a set of
  keys, here a list; \<^verbatim>\<open>m[key] = true\<close> is \<^const>\<open>List.insert\<close> and
  \<^verbatim>\<open>delete(m, key)\<close> is \<^const>\<open>removeAll\<close>.
\<close>

record StatusesToDelete =
  GatewayStatusKeys :: "NamespacedName list"
  HTTPRouteStatusKeys :: "NamespacedName list"
  GRPCRouteStatusKeys :: "NamespacedName list"
  TLSRouteStatusKeys :: "NamespacedName list"
  TCPRouteStatusKeys :: "NamespacedName list"
  UDPRouteStatusKeys :: "NamespacedName list"
  BackendTLSPolicyStatusKeys :: "NamespacedName list"
  ClientTrafficPolicyStatusKeys :: "NamespacedName list"
  BackendTrafficPolicyStatusKeys :: "NamespacedName list"
  SecurityPolicyStatusKeys :: "NamespacedName list"
  EnvoyExtensionPolicyStatusKeys :: "NamespacedName list"
  ExtensionServerPolicyStatusKeys :: "NamespacedNameAndGVK list"
  BackendStatusKeys :: "NamespacedName list"

datatype log_entry = Info "(string \<times> string) list" string | Error error string

text \<open>
  The state the handler works on: the two planes, the status stores, what was written
  to the logger, and what was sent on the error channel that
  \<^verbatim>\<open>HandleSubscription\<close> passes to the handler.
\<close>

record ('i, 'x, 's) Runner =
  InfraIR :: "(string, 'i) store"
  XdsIR :: "(string, 'x) store"
  ProviderResources :: "'s ProviderResources"
  Logger :: "log_entry list"
  errChan :: "error list"

text \<open>
  What the engine calls but does not define: the translator (configured from the
  runner's fields, applied to one bundle), \<^verbatim>\<open>Validate\<close> and \<^verbatim>\<open>YAMLString\<close> of the
  two kinds of entry, \<^verbatim>\<open>reflect.ValueOf(status).IsZero()\<close> on a typed status, and the
  JSON round trip inside \<^verbatim>\<open>unstructuredToPolicyStatus\<close>.
\<close>

record ('b, 'i, 'x, 's, 'm) Deps =
  Translate :: "'b \<Rightarrow> ('i, 'x, 's, 'm) TranslationResult \<times> error option"
  Validate_infra :: "'i \<Rightarrow> error option"
  Validate_xds :: "'x \<Rightarrow> error option"
  YAMLString_infra :: "'i \<Rightarrow> string"
  YAMLString_xds :: "'x \<Rightarrow> string"
  IsZero :: "'s \<Rightarrow> bool"
  json_roundtrip :: "'m \<Rightarrow> 's"

text \<open>
  An update of the subscription: \<^verbatim>\<open>update.Delete\<close> and \<^verbatim>\<open>update.Value\<close>, a pointer
  to the list of bundles (\<open>None\<close> is the nil pointer).
\<close>

record 'b Update =
  Delete :: bool
  Value :: "'b list option"

datatype panic = Panic string

section \<open>The handler of subscribeAndTranslate\<close>

definition unstructuredToPolicyStatus ::
  "('b, 'i, 'x, 's, 'm) Deps \<Rightarrow> 'm \<Rightarrow> 's" where
  "unstructuredToPolicyStatus d policyStatus = json_roundtrip d policyStatus"

text \<open>Lines 172-181: one round of the loop over \<^verbatim>\<open>result.InfraIR\<close>.\<close>

fun publishInfraIR ::
  "('b, 'i, 'x, 's, 'm) Deps \<Rightarrow> string \<times> 'i \<Rightarrow>
   ('i, 'x, 's) Runner \<times> string list \<Rightarrow> ('i, 'x, 's) Runner \<times> string list" where
  "publishInfraIR d (key, val) (r, newIRKeys) =
     (let r1 = r\<lparr>Logger := Logger r @ [Info [(''infra-ir'', key)] (YAMLString_infra d val)]\<rparr>
      in case Validate_infra d val of
           Some err \<Rightarrow>
             (r1\<lparr>Logger := Logger r1 @ [Error err ''unable to validate infra ir, skipped sending it''],
                 errChan := errChan r1 @ [err]\<rparr>,
              newIRKeys)
         | None \<Rightarrow>
             (r1\<lparr>InfraIR := watchable_Store key val (InfraIR r1)\<rparr>, newIRKeys @ [key]))"

text \<open>Lines 183-191: one round of the loop over \<^verbatim>\<open>result.XdsIR\<close>.\<close>

fun publishXdsIR ::
  "('b, 'i, 'x, 's, 'm) Deps \<Rightarrow> string \<times> 'x \<Rightarrow> ('i, 'x, 's) Runner \<Rightarrow> ('i, 'x, 's) Runner" where
  "publishXdsIR d (key, val) r =
     (let r1 = r\<lparr>Logger := Logger r @ [Info [(''xds-ir'', key)] (YAMLString_xds d val)]\<rparr>
      in case Validate_xds d val of
           Some err \<Rightarrow>
             r1\<lparr>Logger := Logger r1 @ [Error err ''unable to validate xds ir, skipped sending it''],
                errChan := errChan r1 @ [err]\<rparr>
         | None \<Rightarrow> r1\<lparr>XdsIR := watchable_Store key val (XdsIR r1)\<rparr>)"

text \<open>
  Lines 194-223: the status loops of gateways and routes store the status whatever it
  is, and take the key out of the candidates for deletion.
\<close>

fun storeGatewayStatus ::
  "'s Object \<Rightarrow> 's ProviderResources \<times> StatusesToDelete \<Rightarrow>
   's ProviderResources \<times> StatusesToDelete" where
  "storeGatewayStatus gateway (pr, statusesToDelete) =
     (let key = utils_NamespacedName gateway
      in (pr\<lparr>GatewayStatuses := watchable_Store key (Status gateway) (GatewayStatuses pr)\<rparr>,
          statusesToDelete\<lparr>GatewayStatusKeys :=
            removeAll key (GatewayStatusKeys statusesToDelete)\<rparr>))"

fun storeHTTPRouteStatus ::
  "'s Object \<Rightarrow> 's ProviderResources \<times> StatusesToDelete \<Rightarrow>
   's ProviderResources \<times> StatusesToDelete" where
  "storeHTTPRouteStatus hTTPRoute (pr, statusesToDelete) =
     (let key = utils_NamespacedName hTTPRoute
      in (pr\<lparr>HTTPRouteStatuses := watchable_Store key (Status hTTPRoute) (HTTPRouteStatuses pr)\<rparr>,
          statusesToDelete\<lparr>HTTPRouteStatusKeys :=
            removeAll key (HTTPRouteStatusKeys statusesToDelete)\<rparr>))"

fun storeGRPCRouteStatus ::
  "'s Object \<Rightarrow> 's ProviderResources \<times> StatusesToDelete \<Rightarrow>
   's ProviderResources \<times> StatusesToDelete" where
  "storeGRPCRouteStatus gRPCRoute (pr, statusesToDelete) =
     (let key = utils_NamespacedName gRPCRoute
      in (pr\<lparr>GRPCRouteStatuses := watchable_Store key (Status gRPCRoute) (GRPCRouteStatuses pr)\<rparr>,
          statusesToDelete\<lparr>GRPCRouteStatusKeys :=
            removeAll key (GRPCRouteStatusKeys statusesToDelete)\<rparr>))"

fun storeTLSRouteStatus ::
  "'s Object \<Rightarrow> 's ProviderResources \<times> StatusesToDelete \<Rightarrow>
   's ProviderResources \<times> StatusesToDelete" where
  "storeTLSRouteStatus tLSRoute (pr, statusesToDelete) =
     (let key = utils_NamespacedName tLSRoute
      in (pr\<lparr>TLSRouteStatuses := watchable_Store key (Status tLSRoute) (TLSRouteStatuses pr)\<rparr>,
          statusesToDelete\<lparr>TLSRouteStatusKeys :=
            removeAll key (TLSRouteStatusKeys statusesToDelete)\<rparr>))"

fun storeTCPRouteStatus ::
  "'s Object \<Rightarrow> 's ProviderResources \<times> StatusesToDelete \<Rightarrow>
   's ProviderResources \<times> StatusesToDelete" where
  "storeTCPRouteStatus tCPRoute (pr, statusesToDelete) =
     (let key = utils_NamespacedName tCPRoute
      in (pr\<lparr>TCPRouteStatuses := watchable_Store key (Status tCPRoute) (TCPRouteStatuses pr)\<rparr>,
          statusesToDelete\<lparr>TCPRouteStatusKeys :=
            removeAll key (TCPRouteStatusKeys statusesToDelete)\<rparr>))"

fun storeUDPRouteStatus ::
  "'s Object \<Rightarrow> 's ProviderResources \<times> StatusesToDelete \<Rightarrow>
   's ProviderResources \<times> StatusesToDelete" where
  "storeUDPRouteStatus uDPRoute (pr, statusesToDelete) =
     (let key = utils_NamespacedName uDPRoute
      in (pr\<lparr>UDPRouteStatuses := watchable_Store key (Status uDPRoute) (UDPRouteStatuses pr)\<rparr>,
          statusesToDelete\<lparr>UDPRouteStatusKeys :=
            removeAll key (UDPRouteStatusKeys statusesToDelete)\<rparr>))"

text \<open>
  Lines 225-273: the status loops of policies and backends store the status only when
  it is not the zero value, and take the key out of the candidates in both cases.
\<close>

fun storeBackendTLSPolicyStatus ::
  "('b, 'i, 'x, 's, 'm) Deps \<Rightarrow> 's Object \<Rightarrow> 's ProviderResources \<times> StatusesToDelete \<Rightarrow>
   's ProviderResources \<times> StatusesToDelete" where
  "storeBackendTLSPolicyStatus d backendTLSPolicy (pr, statusesToDelete) =
     (let key = utils_NamespacedName backendTLSPolicy
      in ((if \<not> IsZero d (Status backendTLSPolicy)
           then pr\<lparr>BackendTLSPolicyStatuses := watchable_Store key (Status backendTLSPolicy) (BackendTLSPolicyStatuses pr)\<rparr>
           else pr),
          statusesToDelete\<lparr>BackendTLSPolicyStatusKeys :=
            removeAll key (BackendTLSPolicyStatusKeys statusesToDelete)\<rparr>))"

fun storeClientTrafficPolicyStatus ::
  "('b, 'i, 'x, 's, 'm) Deps \<Rightarrow> 's Object \<Rightarrow> 's ProviderResources \<times> StatusesToDelete \<Rightarrow>
   's ProviderResources \<times> StatusesToDelete" where
  "storeClientTrafficPolicyStatus d clientTrafficPolicy (pr, statusesToDelete) =
     (let key = utils_NamespacedName clientTrafficPolicy
      in ((if \<not> IsZero d (Status clientTrafficPolicy)
           then pr\<lparr>ClientTrafficPolicyStatuses := watchable_Store key (Status clientTrafficPolicy) (ClientTrafficPolicyStatuses pr)\<rparr>
           else pr),
          statusesToDelete\<lparr>ClientTrafficPolicyStatusKeys :=
            removeAll key (ClientTrafficPolicyStatusKeys statusesToDelete)\<rparr>))"

fun storeBackendTrafficPolicyStatus ::
  "('b, 'i, 'x, 's, 'm) Deps \<Rightarrow> 's Object \<Rightarrow> 's ProviderResources \<times> StatusesToDelete \<Rightarrow>
   's ProviderResources \<times> StatusesToDelete" where
  "storeBackendTrafficPolicyStatus d backendTrafficPolicy (pr, statusesToDelete) =
     (let key = utils_NamespacedName backendTrafficPolicy
      in ((if \<not> IsZero d (Status backendTrafficPolicy)
           then pr\<lparr>BackendTrafficPolicyStatuses := watchable_Store key (Status backendTrafficPolicy) (BackendTrafficPolicyStatuses pr)\<rparr>
           else pr),
          statusesToDelete\<lparr>BackendTrafficPolicyStatusKeys :=
            removeAll key (BackendTrafficPolicyStatusKeys statusesToDelete)\<rparr>))"

fun storeSecurityPolicyStatus ::
  "('b, 'i, 'x, 's, 'm) Deps \<Rightarrow> 's Object \<Rightarrow> 's ProviderResources \<times> StatusesToDelete \<Rightarrow>
   's ProviderResources \<times> StatusesToDelete" where
  "storeSecurityPolicyStatus d securityPolicy (pr, statusesToDelete) =
     (let key = utils_NamespacedName securityPolicy
      in ((if \<not> IsZero d (Status securityPolicy)
           then pr\<lparr>SecurityPolicyStatuses := watchable_Store key (Status securityPolicy) (SecurityPolicyStatuses pr)\<rparr>
           else pr),
          statusesToDelete\<lparr>SecurityPolicyStatusKeys :=
            removeAll key (SecurityPolicyStatusKeys statusesToDelete)\<rparr>))"

fun storeEnvoyExtensionPolicyStatus ::
  "('b, 'i, 'x, 's, 'm) Deps \<Rightarrow> 's Object \<Rightarrow> 's ProviderResources \<times> StatusesToDelete \<Rightarrow>
   's ProviderResources \<times> StatusesToDelete" where
  "storeEnvoyExtensionPolicyStatus d envoyExtensionPolicy (pr, statusesToDelete) =
     (let key = utils_NamespacedName envoyExtensionPolicy
      in ((if \<not> IsZero d (Status envoyExtensionPolicy)
           then pr\<lparr>EnvoyExtensionPolicyStatuses := watchable_Store key (Status envoyExtensionPolicy) (EnvoyExtensionPolicyStatuses pr)\<rparr>
           else pr),
          statusesToDelete\<lparr>EnvoyExtensionPolicyStatusKeys :=
            removeAll key (EnvoyExtensionPolicyStatusKeys statusesToDelete)\<rparr>))"

fun storeBackendStatus ::
  "('b, 'i, 'x, 's, 'm) Deps \<Rightarrow> 's Object \<Rightarrow> 's ProviderResources \<times> StatusesToDelete \<Rightarrow>
   's ProviderResources \<times> StatusesToDelete" where
  "storeBackendStatus d backend (pr, statusesToDelete) =
     (let key = utils_NamespacedName backend
      in ((if \<not> IsZero d (Status backend)
           then pr\<lparr>BackendStatuses := watchable_Store key (Status backend) (BackendStatuses pr)\<rparr>
           else pr),
          statusesToDelete\<lparr>BackendStatusKeys :=
            removeAll key (BackendStatusKeys statusesToDelete)\<rparr>))"

text \<open>
  Lines 274-285: the loop over extension server policies. \<^verbatim>\<open>IsZero\<close> panics on the
  invalid \<^verbatim>\<open>reflect.Value\<close> that \<^verbatim>\<open>reflect.ValueOf(nil)\<close> returns, and the type
  assertion panics on a non-zero value that is not a \<^verbatim>\<open>map[string]any\<close>.
\<close>

fun storeExtensionServerPolicyStatus ::
  "('b, 'i, 'x, 's, 'm) Deps \<Rightarrow> 'm Unstructured \<Rightarrow>
   's ProviderResources \<times> StatusesToDelete \<Rightarrow>
   panic + 's ProviderResources \<times> StatusesToDelete" where
  "storeExtensionServerPolicyStatus d extServerPolicy (pr, statusesToDelete) =
     (let key = ((Namespace_u extServerPolicy, Name_u extServerPolicy),
                 GroupVersionKind_u extServerPolicy);
          ds = statusesToDelete\<lparr>ExtensionServerPolicyStatusKeys :=
                 removeAll key (ExtensionServerPolicyStatusKeys statusesToDelete)\<rparr>
      in case Object_status extServerPolicy of
           NilValue \<Rightarrow> Inl (Panic ''reflect: call of reflect.Value.IsZero on zero Value'')
         | MapValue None \<Rightarrow> Inr (pr, ds)
         | MapValue (Some m) \<Rightarrow>
             Inr (pr\<lparr>ExtensionPolicyStatuses :=
                       watchable_Store key (unstructuredToPolicyStatus d m)
                         (ExtensionPolicyStatuses pr)\<rparr>, ds)
         | OtherValue True \<Rightarrow> Inr (pr, ds)
         | OtherValue False \<Rightarrow> Inl (Panic ''interface conversion: not map[string]interface {}''))"

fun storeExtensionServerPolicyStatuses ::
  "('b, 'i, 'x, 's, 'm) Deps \<Rightarrow> 'm Unstructured list \<Rightarrow>
   's ProviderResources \<times> StatusesToDelete \<Rightarrow>
   panic + 's ProviderResources \<times> StatusesToDelete" where
  "storeExtensionServerPolicyStatuses d [] acc = Inr acc"
| "storeExtensionServerPolicyStatuses d (extServerPolicy # rest) acc =
     (case storeExtensionServerPolicyStatus d extServerPolicy acc of
        Inl p \<Rightarrow> Inl p
      | Inr acc' \<Rightarrow> storeExtensionServerPolicyStatuses d rest acc')"

text \<open>Lines 193-285: the status loops of one bundle, in the order of the source.\<close>

definition updateStatus ::
  "('b, 'i, 'x, 's, 'm) Deps \<Rightarrow> ('i, 'x, 's, 'm) TranslationResult \<Rightarrow>
   's ProviderResources \<times> StatusesToDelete \<Rightarrow>
   panic + 's ProviderResources \<times> StatusesToDelete" where
  "updateStatus d result acc =
     storeExtensionServerPolicyStatuses d (ExtensionServerPolicies result)
       (fold (storeBackendStatus d) (Backends result)
        (fold (storeEnvoyExtensionPolicyStatus d) (EnvoyExtensionPolicies result)
        (fold (storeSecurityPolicyStatus d) (SecurityPolicies result)
        (fold (storeBackendTrafficPolicyStatus d) (BackendTrafficPolicies result)
        (fold (storeClientTrafficPolicyStatus d) (ClientTrafficPolicies result)
        (fold (storeBackendTLSPolicyStatus d) (BackendTLSPolicies result)
        (fold storeUDPRouteStatus (UDPRoutes result)
        (fold storeTCPRouteStatus (TCPRoutes result)
        (fold storeTLSRouteStatus (TLSRoutes result)
        (fold storeGRPCRouteStatus (GRPCRoutes result)
        (fold storeHTTPRouteStatus (HTTPRoutes result)
        (fold storeGatewayStatus (Gateways result)
        acc))))))))))))"

text \<open>
  Lines 142-286: one round of the loop over the bundles. The translator's error is
  logged; nothing else depends on it. A panic of the last status loop ends the handler.
\<close>

fun processBundle ::
  "('b, 'i, 'x, 's, 'm) Deps \<Rightarrow> 'b \<Rightarrow>
   ('i, 'x, 's) Runner \<times> string list \<times> StatusesToDelete \<Rightarrow>
   panic + ('i, 'x, 's) Runner \<times> string list \<times> StatusesToDelete" where
  "processBundle d resources (r, newIRKeys, statusesToDelete) =
     (let (result, err) = Translate d resources;
          r1 = (case err of
                  Some e \<Rightarrow> r\<lparr>Logger := Logger r @ [Error e ''errors detected during translation'']\<rparr>
                | None \<Rightarrow> r);
          (r2, newIRKeys') = fold (publishInfraIR d) (InfraIR_result result) (r1, newIRKeys);
          r3 = fold (publishXdsIR d) (XdsIR_result result) r2
      in case updateStatus d result (ProviderResources r3, statusesToDelete) of
           Inl p \<Rightarrow> Inl p
         | Inr (pr, statusesToDelete') \<Rightarrow>
             Inr (r3\<lparr>ProviderResources := pr\<rparr>, newIRKeys', statusesToDelete'))"

fun processBundles ::
  "('b, 'i, 'x, 's, 'm) Deps \<Rightarrow> 'b list \<Rightarrow>
   ('i, 'x, 's) Runner \<times> string list \<times> StatusesToDelete \<Rightarrow>
   panic + ('i, 'x, 's) Runner \<times> string list \<times> StatusesToDelete" where
  "processBundles d [] acc = Inr acc"
| "processBundles d (resources # rest) acc =
     (case processBundle d resources acc of
        Inl p \<Rightarrow> Inl p
      | Inr acc' \<Rightarrow> processBundles d rest acc')"

text \<open>
  \<^verbatim>\<open>getAllStatuses\<close> (lines 339-398). Every map is made empty; twelve loops fill
  twelve of them from the stores. No loop fills \<^verbatim>\<open>ExtensionServerPolicyStatusKeys\<close>.
\<close>

definition loadKeys :: "('k, 'v) store \<Rightarrow> 'k list" where
  "loadKeys m = fold (\<lambda>(key, _) ds. List.insert key ds) (watchable_LoadAll m) []"

definition getAllStatuses :: "('i, 'x, 's) Runner \<Rightarrow> StatusesToDelete" where
  "getAllStatuses r =
     \<lparr>GatewayStatusKeys = loadKeys (GatewayStatuses (ProviderResources r)),
      HTTPRouteStatusKeys = loadKeys (HTTPRouteStatuses (ProviderResources r)),
      GRPCRouteStatusKeys = loadKeys (GRPCRouteStatuses (ProviderResources r)),
      TLSRouteStatusKeys = loadKeys (TLSRouteStatuses (ProviderResources r)),
      TCPRouteStatusKeys = loadKeys (TCPRouteStatuses (ProviderResources r)),
      UDPRouteStatusKeys = loadKeys (UDPRouteStatuses (ProviderResources r)),
      BackendTLSPolicyStatusKeys = loadKeys (BackendTLSPolicyStatuses (ProviderResources r)),
      ClientTrafficPolicyStatusKeys = loadKeys (ClientTrafficPolicyStatuses (ProviderResources r)),
      BackendTrafficPolicyStatusKeys = loadKeys (BackendTrafficPolicyStatuses (ProviderResources r)),
      SecurityPolicyStatusKeys = loadKeys (SecurityPolicyStatuses (ProviderResources r)),
      EnvoyExtensionPolicyStatusKeys = loadKeys (EnvoyExtensionPolicyStatuses (ProviderResources r)),
      ExtensionServerPolicyStatusKeys = [],
      BackendStatusKeys = loadKeys (BackendStatuses (ProviderResources r))\<rparr>"

text \<open>
  \<^verbatim>\<open>deleteStatusKeys\<close> (lines 400-454). The source also empties the maps of its
  argument while it walks them; the argument is local to the handler and is not used
  afterwards.
\<close>

definition deleteKeys :: "'k list \<Rightarrow> ('k, 'v) store \<Rightarrow> ('k, 'v) store" where
  "deleteKeys ks m = fold (\<lambda>key m. watchable_Delete key m) ks m"

definition deleteStatusKeys ::
  "StatusesToDelete \<Rightarrow> ('i, 'x, 's) Runner \<Rightarrow> ('i, 'x, 's) Runner" where
  "deleteStatusKeys ds r =
     r\<lparr>ProviderResources := (ProviderResources r)
       \<lparr>GatewayStatuses := deleteKeys (GatewayStatusKeys ds) (GatewayStatuses (ProviderResources r)),
        HTTPRouteStatuses := deleteKeys (HTTPRouteStatusKeys ds) (HTTPRouteStatuses (ProviderResources r)),
        GRPCRouteStatuses := deleteKeys (GRPCRouteStatusKeys ds) (GRPCRouteStatuses (ProviderResources r)),
        TLSRouteStatuses := deleteKeys (TLSRouteStatusKeys ds) (TLSRouteStatuses (ProviderResources r)),
        TCPRouteStatuses := deleteKeys (TCPRouteStatusKeys ds) (TCPRouteStatuses (ProviderResources r)),
        UDPRouteStatuses := deleteKeys (UDPRouteStatusKeys ds) (UDPRouteStatuses (ProviderResources r)),
        ClientTrafficPolicyStatuses := deleteKeys (ClientTrafficPolicyStatusKeys ds) (ClientTrafficPolicyStatuses (ProviderResources r)),
        BackendTrafficPolicyStatuses := deleteKeys (BackendTrafficPolicyStatusKeys ds) (BackendTrafficPolicyStatuses (ProviderResources r)),
        SecurityPolicyStatuses := deleteKeys (SecurityPolicyStatusKeys ds) (SecurityPolicyStatuses (ProviderResources r)),
        BackendTLSPolicyStatuses := deleteKeys (BackendTLSPolicyStatusKeys ds) (BackendTLSPolicyStatuses (ProviderResources r)),
        EnvoyExtensionPolicyStatuses := deleteKeys (EnvoyExtensionPolicyStatusKeys ds) (EnvoyExtensionPolicyStatuses (ProviderResources r)),
        ExtensionPolicyStatuses := deleteKeys (ExtensionServerPolicyStatusKeys ds) (ExtensionPolicyStatuses (ProviderResources r)),
        BackendStatuses := deleteKeys (BackendStatusKeys ds) (BackendStatuses (ProviderResources r))\<rparr>\<rparr>"

text \<open>\<^verbatim>\<open>deleteAllStatusKeys\<close> (lines 456-500): every store loses the keys it holds.\<close>

definition deleteAll :: "('k, 'v) store \<Rightarrow> ('k, 'v) store" where
  "deleteAll m = fold (\<lambda>(key, _) m. watchable_Delete key m) (watchable_LoadAll m) m"

definition deleteAllStatusKeys :: "('i, 'x, 's) Runner \<Rightarrow> ('i, 'x, 's) Runner" where
  "deleteAllStatusKeys r =
     r\<lparr>ProviderResources := (ProviderResources r)
       \<lparr>GatewayStatuses := deleteAll (GatewayStatuses (ProviderResources r)),
        HTTPRouteStatuses := deleteAll (HTTPRouteStatuses (ProviderResources r)),
        GRPCRouteStatuses := deleteAll (GRPCRouteStatuses (ProviderResources r)),
        TLSRouteStatuses := deleteAll (TLSRouteStatuses (ProviderResources r)),
        TCPRouteStatuses := deleteAll (TCPRouteStatuses (ProviderResources r)),
        UDPRouteStatuses := deleteAll (UDPRouteStatuses (ProviderResources r)),
        BackendTLSPolicyStatuses := deleteAll (BackendTLSPolicyStatuses (ProviderResources r)),
        ClientTrafficPolicyStatuses := deleteAll (ClientTrafficPolicyStatuses (ProviderResources r)),
        BackendTrafficPolicyStatuses := deleteAll (BackendTrafficPolicyStatuses (ProviderResources r)),
        SecurityPolicyStatuses := deleteAll (SecurityPolicyStatuses (ProviderResources r)),
        EnvoyExtensionPolicyStatuses := deleteAll (EnvoyExtensionPolicyStatuses (ProviderResources r)),
        ExtensionPolicyStatuses := deleteAll (ExtensionPolicyStatuses (ProviderResources r)),
        BackendStatuses := deleteAll (BackendStatuses (ProviderResources r))\<rparr>\<rparr>"

text \<open>
  Lines 291-294 and 315-318: a key is deleted from the InfraIR plane and from the XdsIR
  plane in the same round of the loop.
\<close>

definition deleteIRKey :: "string \<Rightarrow> ('i, 'x, 's) Runner \<Rightarrow> ('i, 'x, 's) Runner" where
  "deleteIRKey key r =
     r\<lparr>InfraIR := watchable_Delete key (InfraIR r), XdsIR := watchable_Delete key (XdsIR r)\<rparr>"

text \<open>\<^verbatim>\<open>deleteAllIRKeys\<close> (lines 313-319) walks the keys of the InfraIR plane.\<close>

definition deleteAllIRKeys :: "('i, 'x, 's) Runner \<Rightarrow> ('i, 'x, 's) Runner" where
  "deleteAllIRKeys r = fold (\<lambda>(key, _) r. deleteIRKey key r) (watchable_LoadAll (InfraIR r)) r"

text \<open>
  The handler (lines 118-298). It logs that an update was received (line 119). A
  delete and a nil value tear everything down; a value is reconciled: the keys before,
  the bundles, the stale keys of the planes, the stale keys of the status stores.
\<close>

definition received :: "('i, 'x, 's) Runner \<Rightarrow> ('i, 'x, 's) Runner" where
  "received r = r\<lparr>Logger := Logger r @ [Info [] ''received an update'']\<rparr>"

definition handle ::
  "('b, 'i, 'x, 's, 'm) Deps \<Rightarrow> ('i, 'x, 's) Runner \<Rightarrow> 'b Update \<Rightarrow>
   panic + ('i, 'x, 's) Runner" where
  "handle d r0 update =
     (let r = received r0
      in if Delete update \<or> Value update = None
         then Inr (deleteAllStatusKeys (deleteAllIRKeys r))
         else
           (let val = the (Value update);
                curIRKeys = map fst (watchable_LoadAll (InfraIR r));
                statusesToDelete = getAllStatuses r
            in case processBundles d val (r, [], statusesToDelete) of
                 Inl p \<Rightarrow> Inl p
               | Inr (r', newIRKeys, statusesToDelete') \<Rightarrow>
                   (let delKeys = getIRKeysToDelete curIRKeys newIRKeys
                    in Inr (deleteStatusKeys statusesToDelete' (fold deleteIRKey delKeys r')))))"

section \<open>Notions used in the statements\<close>

text \<open>
  What the loops of the handler add up to, written without the loop: the entries of a
  translation result that pass validation, the validation errors in the order in which
  they are sent, the status entries that a loop stores, and the same over every bundle
  of a snapshot. The lemmas below relate each of them to the loop it summarises.
\<close>

definition storeEach :: "('k \<times> 'v) list \<Rightarrow> ('k, 'v) store \<Rightarrow> ('k, 'v) store" where
  "storeEach kvs m = fold (\<lambda>(key, val) m. watchable_Store key val m) kvs m"

definition removeEach :: "'k list \<Rightarrow> 'k list \<Rightarrow> 'k list" where
  "removeEach ks l = fold removeAll ks l"

definition validInfraIR ::
  "('b, 'i, 'x, 's, 'm) Deps \<Rightarrow> ('i, 'x, 's, 'm) TranslationResult \<Rightarrow> (string \<times> 'i) list" where
  "validInfraIR d result = filter (\<lambda>(key, val). Validate_infra d val = None) (InfraIR_result result)"

definition validXdsIR ::
  "('b, 'i, 'x, 's, 'm) Deps \<Rightarrow> ('i, 'x, 's, 'm) TranslationResult \<Rightarrow> (string \<times> 'x) list" where
  "validXdsIR d result = filter (\<lambda>(key, val). Validate_xds d val = None) (XdsIR_result result)"

definition validationErrors ::
  "('b, 'i, 'x, 's, 'm) Deps \<Rightarrow> ('i, 'x, 's, 'm) TranslationResult \<Rightarrow> error list" where
  "validationErrors d result =
     List.map_filter (\<lambda>(key, val). Validate_infra d val) (InfraIR_result result)
     @ List.map_filter (\<lambda>(key, val). Validate_xds d val) (XdsIR_result result)"

definition infraLog :: "('b, 'i, 'x, 's, 'm) Deps \<Rightarrow> string \<times> 'i \<Rightarrow> log_entry list" where
  "infraLog d kv =
     Info [(''infra-ir'', fst kv)] (YAMLString_infra d (snd kv))
     # (case Validate_infra d (snd kv) of
          Some err \<Rightarrow> [Error err ''unable to validate infra ir, skipped sending it'']
        | None \<Rightarrow> [])"

definition xdsLog :: "('b, 'i, 'x, 's, 'm) Deps \<Rightarrow> string \<times> 'x \<Rightarrow> log_entry list" where
  "xdsLog d kv =
     Info [(''xds-ir'', fst kv)] (YAMLString_xds d (snd kv))
     # (case Validate_xds d (snd kv) of
          Some err \<Rightarrow> [Error err ''unable to validate xds ir, skipped sending it'']
        | None \<Rightarrow> [])"

definition translationLog :: "error option \<Rightarrow> log_entry list" where
  "translationLog err =
     (case err of Some e \<Rightarrow> [Error e ''errors detected during translation''] | None \<Rightarrow> [])"

definition bundleLog :: "('b, 'i, 'x, 's, 'm) Deps \<Rightarrow> 'b \<Rightarrow> log_entry list" where
  "bundleLog d resources =
     translationLog (snd (Translate d resources))
     @ concat (map (infraLog d) (InfraIR_result (fst (Translate d resources))))
     @ concat (map (xdsLog d) (XdsIR_result (fst (Translate d resources))))"

definition statusEntries :: "'s Object list \<Rightarrow> (NamespacedName \<times> 's) list" where
  "statusEntries objs = map (\<lambda>obj. (utils_NamespacedName obj, Status obj)) objs"

definition nonZero :: "('b, 'i, 'x, 's, 'm) Deps \<Rightarrow> 's Object list \<Rightarrow> 's Object list" where
  "nonZero d objs = filter (\<lambda>obj. \<not> IsZero d (Status obj)) objs"

definition extKey :: "'m Unstructured \<Rightarrow> NamespacedNameAndGVK" where
  "extKey p = ((Namespace_u p, Name_u p), GroupVersionKind_u p)"

fun extStatusEntry ::
  "('b, 'i, 'x, 's, 'm) Deps \<Rightarrow> 'm Unstructured \<Rightarrow> (NamespacedNameAndGVK \<times> 's) list" where
  "extStatusEntry d p =
     (case Object_status p of
        MapValue (Some m) \<Rightarrow> [(extKey p, unstructuredToPolicyStatus d m)]
      | _ \<Rightarrow> [])"

definition extStatusEntries ::
  "('b, 'i, 'x, 's, 'm) Deps \<Rightarrow> 'm Unstructured list \<Rightarrow> (NamespacedNameAndGVK \<times> 's) list" where
  "extStatusEntries d ps = concat (map (extStatusEntry d) ps)"

text \<open>The two values of \<^verbatim>\<open>Object["status"]\<close> on which the last status loop panics.\<close>

fun panics :: "'m Unstructured \<Rightarrow> bool" where
  "panics p =
     (case Object_status p of NilValue \<Rightarrow> True | OtherValue False \<Rightarrow> True | _ \<Rightarrow> False)"

text \<open>The translation results of a snapshot, one for each bundle, in order.\<close>

definition translationResults ::
  "('b, 'i, 'x, 's, 'm) Deps \<Rightarrow> 'b list \<Rightarrow> ('i, 'x, 's, 'm) TranslationResult list" where
  "translationResults d val = map (\<lambda>resources. fst (Translate d resources)) val"

definition produced ::
  "(('i, 'x, 's, 'm) TranslationResult \<Rightarrow> 'a list) \<Rightarrow> ('b, 'i, 'x, 's, 'm) Deps \<Rightarrow> 'b list \<Rightarrow> 'a list" where
  "produced field d val = concat (map field (translationResults d val))"

definition panicFree :: "('b, 'i, 'x, 's, 'm) Deps \<Rightarrow> 'b list \<Rightarrow> bool" where
  "panicFree d val = (\<forall>p \<in> set (produced ExtensionServerPolicies d val). \<not> panics p)"

text \<open>
  The status stores and the candidates for deletion after the status loops of a list
  of translation results, when no loop panics.
\<close>

definition statusesAfter ::
  "('b, 'i, 'x, 's, 'm) Deps \<Rightarrow> ('i, 'x, 's, 'm) TranslationResult list \<Rightarrow>
   's ProviderResources \<Rightarrow> 's ProviderResources" where
  "statusesAfter d results pr =
     pr\<lparr>GatewayStatuses :=
         storeEach (statusEntries (concat (map Gateways results))) (GatewayStatuses pr),
        HTTPRouteStatuses :=
         storeEach (statusEntries (concat (map HTTPRoutes results))) (HTTPRouteStatuses pr),
        GRPCRouteStatuses :=
         storeEach (statusEntries (concat (map GRPCRoutes results))) (GRPCRouteStatuses pr),
        TLSRouteStatuses :=
         storeEach (statusEntries (concat (map TLSRoutes results))) (TLSRouteStatuses pr),
        TCPRouteStatuses :=
         storeEach (statusEntries (concat (map TCPRoutes results))) (TCPRouteStatuses pr),
        UDPRouteStatuses :=
         storeEach (statusEntries (concat (map UDPRoutes results))) (UDPRouteStatuses pr),
        BackendTLSPolicyStatuses :=
         storeEach (statusEntries (nonZero d (concat (map BackendTLSPolicies results)))) (BackendTLSPolicyStatuses pr),
        ClientTrafficPolicyStatuses :=
         storeEach (statusEntries (nonZero d (concat (map ClientTrafficPolicies results)))) (ClientTrafficPolicyStatuses pr),
        BackendTrafficPolicyStatuses :=
         storeEach (statusEntries (nonZero d (concat (map BackendTrafficPolicies results)))) (BackendTrafficPolicyStatuses pr),
        SecurityPolicyStatuses :=
         storeEach (statusEntries (nonZero d (concat (map SecurityPolicies results)))) (SecurityPolicyStatuses pr),
        EnvoyExtensionPolicyStatuses :=
         storeEach (statusEntries (nonZero d (concat (map EnvoyExtensionPolicies results)))) (EnvoyExtensionPolicyStatuses pr),
        ExtensionPolicyStatuses :=
         storeEach (extStatusEntries d (concat (map ExtensionServerPolicies results)))
           (ExtensionPolicyStatuses pr),
        BackendStatuses :=
         storeEach (statusEntries (nonZero d (concat (map Backends results)))) (BackendStatuses pr)\<rparr>"

definition candidatesAfter ::
  "('i, 'x, 's, 'm) TranslationResult list \<Rightarrow> StatusesToDelete \<Rightarrow> StatusesToDelete" where
  "candidatesAfter results ds =
     ds\<lparr>GatewayStatusKeys :=
         removeEach (map utils_NamespacedName (concat (map Gateways results))) (GatewayStatusKeys ds),
        HTTPRouteStatusKeys :=
         removeEach (map utils_NamespacedName (concat (map HTTPRoutes results))) (HTTPRouteStatusKeys ds),
        GRPCRouteStatusKeys :=
         removeEach (map utils_NamespacedName (concat (map GRPCRoutes results))) (GRPCRouteStatusKeys ds),
        TLSRouteStatusKeys :=
         removeEach (map utils_NamespacedName (concat (map TLSRoutes results))) (TLSRouteStatusKeys ds),
        TCPRouteStatusKeys :=
         removeEach (map utils_NamespacedName (concat (map TCPRoutes results))) (TCPRouteStatusKeys ds),
        UDPRouteStatusKeys :=
         removeEach (map utils_NamespacedName (concat (map UDPRoutes results))) (UDPRouteStatusKeys ds),
        BackendTLSPolicyStatusKeys :=
         removeEach (map utils_NamespacedName (concat (map BackendTLSPolicies results))) (BackendTLSPolicyStatusKeys ds),
        ClientTrafficPolicyStatusKeys :=
         removeEach (map utils_NamespacedName (concat (map ClientTrafficPolicies results))) (ClientTrafficPolicyStatusKeys ds),
        BackendTrafficPolicyStatusKeys :=
         removeEach (map utils_NamespacedName (concat (map BackendTrafficPolicies results))) (BackendTrafficPolicyStatusKeys ds),
        SecurityPolicyStatusKeys :=
         removeEach (map utils_NamespacedName (concat (map SecurityPolicies results))) (SecurityPolicyStatusKeys ds),
        EnvoyExtensionPolicyStatusKeys :=
         removeEach (map utils_NamespacedName (concat (map EnvoyExtensionPolicies results))) (EnvoyExtensionPolicyStatusKeys ds),
        ExtensionServerPolicyStatusKeys :=
         removeEach (map extKey (concat (map ExtensionServerPolicies results)))
           (ExtensionServerPolicyStatusKeys ds),
        BackendStatusKeys :=
         removeEach (map utils_NamespacedName (concat (map Backends results))) (BackendStatusKeys ds)\<rparr>"

text \<open>
  The twelve resource kinds whose status is keyed by namespace and name, each with its
  status store, its field of the translation result, and whether its loop tests the
  status before storing it (lines 229-273) or not (lines 194-223). The thirteenth
  kind, the extension server policy, has keys of another type and is named by its
  fields.
\<close>

datatype status_kind =
    Gateway
  | HTTPRoute
  | GRPCRoute
  | TLSRoute
  | TCPRoute
  | UDPRoute
  | BackendTLSPolicy
  | ClientTrafficPolicy
  | BackendTrafficPolicy
  | SecurityPolicy
  | EnvoyExtensionPolicy
  | Backend

fun statusStore :: "status_kind \<Rightarrow> 's ProviderResources \<Rightarrow> (NamespacedName, 's) store" where
  "statusStore Gateway pr = GatewayStatuses pr"
| "statusStore HTTPRoute pr = HTTPRouteStatuses pr"
| "statusStore GRPCRoute pr = GRPCRouteStatuses pr"
| "statusStore TLSRoute pr = TLSRouteStatuses pr"
| "statusStore TCPRoute pr = TCPRouteStatuses pr"
| "statusStore UDPRoute pr = UDPRouteStatuses pr"
| "statusStore BackendTLSPolicy pr = BackendTLSPolicyStatuses pr"
| "statusStore ClientTrafficPolicy pr = ClientTrafficPolicyStatuses pr"
| "statusStore BackendTrafficPolicy pr = BackendTrafficPolicyStatuses pr"
| "statusStore SecurityPolicy pr = SecurityPolicyStatuses pr"
| "statusStore EnvoyExtensionPolicy pr = EnvoyExtensionPolicyStatuses pr"
| "statusStore Backend pr = BackendStatuses pr"

fun objectsOf ::
  "status_kind \<Rightarrow> ('i, 'x, 's, 'm) TranslationResult \<Rightarrow> 's Object list" where
  "objectsOf Gateway result = Gateways result"
| "objectsOf HTTPRoute result = HTTPRoutes result"
| "objectsOf GRPCRoute result = GRPCRoutes result"
| "objectsOf TLSRoute result = TLSRoutes result"
| "objectsOf TCPRoute result = TCPRoutes result"
| "objectsOf UDPRoute result = UDPRoutes result"
| "objectsOf BackendTLSPolicy result = BackendTLSPolicies result"
| "objectsOf ClientTrafficPolicy result = ClientTrafficPolicies result"
| "objectsOf BackendTrafficPolicy result = BackendTrafficPolicies result"
| "objectsOf SecurityPolicy result = SecurityPolicies result"
| "objectsOf EnvoyExtensionPolicy result = EnvoyExtensionPolicies result"
| "objectsOf Backend result = Backends result"

fun skipsZero :: "status_kind \<Rightarrow> bool" where
  "skipsZero Gateway = False"
| "skipsZero HTTPRoute = False"
| "skipsZero GRPCRoute = False"
| "skipsZero TLSRoute = False"
| "skipsZero TCPRoute = False"
| "skipsZero UDPRoute = False"
| "skipsZero BackendTLSPolicy = True"
| "skipsZero ClientTrafficPolicy = True"
| "skipsZero BackendTrafficPolicy = True"
| "skipsZero SecurityPolicy = True"
| "skipsZero EnvoyExtensionPolicy = True"
| "skipsZero Backend = True"


text \<open>The same dependencies with a translator that returns no error.\<close>

definition withoutTranslationErrors ::
  "('b, 'i, 'x, 's, 'm) Deps \<Rightarrow> ('b, 'i, 'x, 's, 'm) Deps" where
  "withoutTranslationErrors d =
     d\<lparr>Translate := \<lambda>resources. (fst (Translate d resources), None)\<rparr>"

text \<open>The state without the log: the two planes, the status stores, the error channel.\<close>

definition stores ::
  "('i, 'x, 's) Runner \<Rightarrow>
   (string, 'i) store \<times> (string, 'x) store \<times> 's ProviderResources \<times> error list" where
  "stores r = (InfraIR r, XdsIR r, ProviderResources r, errChan r)"

section \<open>Example inputs\<close>

text \<open>
  Concrete inputs on which the theorems below are evaluated. Entries of both planes
  are strings and \<^verbatim>\<open>Validate\<close> rejects the entry \<open>''bad''\<close>; a status is a list of
  conditions and the empty list is its zero value; a bundle is named by a string and
  the translator is a table of six bundles.
\<close>

definition emptyResult :: "(string, string, string list, string list) TranslationResult" where
  "emptyResult =
     \<lparr>InfraIR_result = [], XdsIR_result = [], Gateways = [], HTTPRoutes = [], GRPCRoutes = [],
      TLSRoutes = [], TCPRoutes = [], UDPRoutes = [], BackendTLSPolicies = [],
      ClientTrafficPolicies = [], BackendTrafficPolicies = [], SecurityPolicies = [],
      EnvoyExtensionPolicies = [], Backends = [], ExtensionServerPolicies = []\<rparr>"

definition exTranslate ::
  "string \<Rightarrow> (string, string, string list, string list) TranslationResult \<times> error option" where
  "exTranslate resources =
     (if resources = ''good'' then
        (emptyResult\<lparr>InfraIR_result := [(''gw1'', ''infra'')], XdsIR_result := [(''gw1'', ''xds'')]\<rparr>,
         None)
      else if resources = ''bad-xds'' then
        (emptyResult\<lparr>InfraIR_result := [(''gw1'', ''infra'')], XdsIR_result := [(''gw1'', ''bad'')]\<rparr>,
         None)
      else if resources = ''bad-infra'' then
        (emptyResult\<lparr>InfraIR_result := [(''gw1'', ''bad'')], XdsIR_result := [(''gw1'', ''xds'')]\<rparr>,
         None)
      else if resources = ''accepted'' then
        (emptyResult\<lparr>InfraIR_result := [(''gw2'', ''infra'')], XdsIR_result := [(''gw2'', ''xds'')],
           Gateways := [\<lparr>Namespace = ''ns'', Name = ''gw'', Status = [''Programmed'']\<rparr>],
           SecurityPolicies := [\<lparr>Namespace = ''ns'', Name = ''sp'', Status = [''Accepted'']\<rparr>],
           ExtensionServerPolicies :=
             [\<lparr>Namespace_u = ''ns'', Name_u = ''ext'',
               GroupVersionKind_u = (''example.io'', ''v1'', ''Foo''),
               Object_status = MapValue (Some [''Accepted''])\<rparr>]\<rparr>,
         Some ''partial translation'')
      else if resources = ''silent'' then
        (emptyResult\<lparr>InfraIR_result := [(''gw2'', ''infra'')], XdsIR_result := [(''gw2'', ''xds'')],
           Gateways := [\<lparr>Namespace = ''ns'', Name = ''gw'', Status = []\<rparr>],
           SecurityPolicies := [\<lparr>Namespace = ''ns'', Name = ''sp'', Status = []\<rparr>]\<rparr>,
         None)
      else if resources = ''route'' then
        (emptyResult\<lparr>InfraIR_result := [(''gw1'', ''infra'')], XdsIR_result := [(''gw1'', ''xds'')],
           HTTPRoutes := [\<lparr>Namespace = ''ns'', Name = ''rt'', Status = [''Accepted'']\<rparr>]\<rparr>,
         None)
      else (emptyResult, None))"

definition exDeps :: "(string, string, string, string list, string list) Deps" where
  "exDeps =
     \<lparr>Translate = exTranslate,
      Validate_infra = (\<lambda>val. if val = ''bad'' then Some ''invalid infra ir'' else None),
      Validate_xds = (\<lambda>val. if val = ''bad'' then Some ''invalid xds ir'' else None),
      YAMLString_infra = (\<lambda>val. val),
      YAMLString_xds = (\<lambda>val. val),
      IsZero = (\<lambda>status. status = []),
      json_roundtrip = (\<lambda>m. m)\<rparr>"

definition emptyRunner :: "(string, string, string list) Runner" where
  "emptyRunner =
     \<lparr>InfraIR = [], XdsIR = [],
      ProviderResources =
        \<lparr>GatewayStatuses = [], HTTPRouteStatuses = [], GRPCRouteStatuses = [],
         TLSRouteStatuses = [], TCPRouteStatuses = [], UDPRouteStatuses = [],
         BackendTLSPolicyStatuses = [], ClientTrafficPolicyStatuses = [],
         BackendTrafficPolicyStatuses = [], SecurityPolicyStatuses = [],
         EnvoyExtensionPolicyStatuses = [], ExtensionPolicyStatuses = [],
         BackendStatuses = []\<rparr>,
      Logger = [], errChan = []\<rparr>"

definition valueEvent :: "string list \<Rightarrow> string Update" where
  "valueEvent val = \<lparr>Delete = False, Value = Some val\<rparr>"

definition deleteEvent :: "string Update" where
  "deleteEvent = \<lparr>Delete = True, Value = None\<rparr>"

text \<open>The state that the handler returns, when it returns one.\<close>

definition after ::
  "(string, string, string list) Runner \<Rightarrow> string Update \<Rightarrow> (string, string, string list) Runner" where
  "after r update = projr (handle exDeps r update)"

text \<open>
  States that the handler reaches from the empty state: after the snapshot
  \<open>[''good'']\<close>; after the snapshot \<open>[''bad-infra'']\<close>; after \<open>[''good'']\<close> and then
  \<open>[''bad-infra'']\<close>; after the snapshot \<open>[''accepted'']\<close>; after the snapshot
  \<open>[''route'']\<close>; after \<open>[''route'']\<close> and then \<open>[''accepted'']\<close>.
\<close>

definition afterGood :: "(string, string, string list) Runner" where
  "afterGood =
     emptyRunner
       \<lparr>InfraIR := [(''gw1'', ''infra'')], XdsIR := [(''gw1'', ''xds'')],
        Logger :=
          [Info [] ''received an update'',
           Info [(''infra-ir'', ''gw1'')] ''infra'',
           Info [(''xds-ir'', ''gw1'')] ''xds'']\<rparr>"

definition afterBadInfra :: "(string, string, string list) Runner" where
  "afterBadInfra =
     emptyRunner
       \<lparr>XdsIR := [(''gw1'', ''xds'')],
        Logger :=
          [Info [] ''received an update'',
           Info [(''infra-ir'', ''gw1'')] ''bad'',
           Error ''invalid infra ir'' ''unable to validate infra ir, skipped sending it'',
           Info [(''xds-ir'', ''gw1'')] ''xds''],
        errChan := [''invalid infra ir'']\<rparr>"


definition afterAccepted :: "(string, string, string list) Runner" where
  "afterAccepted =
     emptyRunner
       \<lparr>InfraIR := [(''gw2'', ''infra'')], XdsIR := [(''gw2'', ''xds'')],
        ProviderResources := (ProviderResources emptyRunner)
          \<lparr>GatewayStatuses := [((''ns'', ''gw''), [''Programmed''])],
           SecurityPolicyStatuses := [((''ns'', ''sp''), [''Accepted''])],
           ExtensionPolicyStatuses :=
             [(((''ns'', ''ext''), ''example.io'', ''v1'', ''Foo''), [''Accepted''])]\<rparr>,
        Logger :=
          [Info [] ''received an update'',
           Error ''partial translation'' ''errors detected during translation'',
           Info [(''infra-ir'', ''gw2'')] ''infra'',
           Info [(''xds-ir'', ''gw2'')] ''xds'']\<rparr>"

definition afterRoute :: "(string, string, string list) Runner" where
  "afterRoute =
     emptyRunner
       \<lparr>InfraIR := [(''gw1'', ''infra'')], XdsIR := [(''gw1'', ''xds'')],
        ProviderResources := (ProviderResources emptyRunner)
          \<lparr>HTTPRouteStatuses := [((''ns'', ''rt''), [''Accepted''])]\<rparr>,
        Logger :=
          [Info [] ''received an update'',
           Info [(''infra-ir'', ''gw1'')] ''infra'',
           Info [(''xds-ir'', ''gw1'')] ''xds'']\<rparr>"

definition afterRouteAccepted :: "(string, string, string list) Runner" where
  "afterRouteAccepted =
     emptyRunner
       \<lparr>InfraIR := [(''gw2'', ''infra'')], XdsIR := [(''gw2'', ''xds'')],
        ProviderResources := (ProviderResources emptyRunner)
          \<lparr>GatewayStatuses := [((''ns'', ''gw''), [''Programmed''])],
           SecurityPolicyStatuses := [((''ns'', ''sp''), [''Accepted''])],
           ExtensionPolicyStatuses :=
             [(((''ns'', ''ext''), ''example.io'', ''v1'', ''Foo''), [''Accepted''])]\<rparr>,
        Logger :=
          [Info [] ''received an update'',
           Info [(''infra-ir'', ''gw1'')] ''infra'',
           Info [(''xds-ir'', ''gw1'')] ''xds'',
           Info [] ''received an update'',
           Error ''partial translation'' ''errors detected during translation'',
           Info [(''infra-ir'', ''gw2'')] ''infra'',
           Info [(''xds-ir'', ''gw2'')] ''xds'']\<rparr>"

section \<open>Properties of the stale-key diff\<close>

lemma getIRKeysToDelete_sorted_list:
  "getIRKeysToDelete curKeys newKeys = sorted_list_of_set (set curKeys - set newKeys)"
proof -
  have "{key \<in> set curKeys. key \<notin> set newKeys} = set curKeys - set newKeys"
    by blast
  then show ?thesis
    by (simp add: getIRKeysToDelete_def sets_NewString_def sets_Difference_def sets_List_def)
qed

lemma getIRKeysToDelete_filter:
  "getIRKeysToDelete curKeys newKeys =
     sort (remdups (filter (\<lambda>key. key \<notin> set newKeys) curKeys))"
proof -
  have "set curKeys - set newKeys = set (filter (\<lambda>key. key \<notin> set newKeys) curKeys)"
    by auto
  then show ?thesis
    by (simp only: getIRKeysToDelete_sorted_list sorted_list_of_set_sort_remdups)
qed

lemma set_getIRKeysToDelete:
  "set (getIRKeysToDelete curKeys newKeys) = set curKeys - set newKeys"
  by (simp add: getIRKeysToDelete_sorted_list)

text \<open>
  Claim C5. The diff returns exactly the set difference of its arguments; it is empty
  when both arguments hold the same keys and when the first is empty; the model has no
  error branch because the source has none (no index, no dereference, no assertion);
  and two pairs of inputs that differ only in repetitions or order of their entries
  give the same list.
\<close>

theorem getIRKeysToDelete_set_difference:
  "set (getIRKeysToDelete A B) = set A - set B
   \<and> getIRKeysToDelete A A = []
   \<and> getIRKeysToDelete [] B = []
   \<and> (set A = set A' \<and> set B = set B' \<longrightarrow>
        getIRKeysToDelete A B = getIRKeysToDelete A' B')"
  by (simp add: getIRKeysToDelete_sorted_list)

theorem getIRKeysToDelete_set_difference_witness:
  "set [''gw1'', ''gw2'', ''gw1''] = set [''gw2'', ''gw1'']
   \<and> set [''gw2'', ''gw2''] = set [''gw2'']
   \<and> getIRKeysToDelete [''gw1'', ''gw2'', ''gw1''] [''gw2'', ''gw2'']
       = getIRKeysToDelete [''gw2'', ''gw1''] [''gw2'']
   \<and> set (getIRKeysToDelete [''gw1'', ''gw2'', ''gw1''] [''gw2'', ''gw2'']) = {''gw1''}"
proof -
  have a: "set [''gw1'', ''gw2'', ''gw1''] = set [''gw2'', ''gw1'']"
    by auto
  have b: "set [''gw2'', ''gw2''] = set [''gw2'']"
    by simp
  from getIRKeysToDelete_set_difference
    [of "[''gw1'', ''gw2'', ''gw1'']" "[''gw2'', ''gw2'']" "[''gw2'', ''gw1'']" "[''gw2'']"]
  have c: "getIRKeysToDelete [''gw1'', ''gw2'', ''gw1''] [''gw2'', ''gw2'']
             = getIRKeysToDelete [''gw2'', ''gw1''] [''gw2'']"
    and d: "set (getIRKeysToDelete [''gw1'', ''gw2'', ''gw1''] [''gw2'', ''gw2''])
             = set [''gw1'', ''gw2'', ''gw1''] - set [''gw2'', ''gw2'']"
    using a b by blast+
  from d have "set (getIRKeysToDelete [''gw1'', ''gw2'', ''gw1''] [''gw2'', ''gw2'']) = {''gw1''}"
    by auto
  with a b c show ?thesis by blast
qed

text \<open>
  Claim C10. The returned list has no repeated entry and is in strictly increasing
  lexicographic order, whatever the two inputs are.
\<close>

theorem getIRKeysToDelete_distinct_sorted:
  "distinct (getIRKeysToDelete curKeys newKeys)
   \<and> sorted_wrt (<) (getIRKeysToDelete curKeys newKeys)"
  by (simp add: getIRKeysToDelete_sorted_list)

section \<open>The store operations\<close>


lemma keys_Store [simp]: "keys (watchable_Store key val m) = insert key (keys m)"
  by (simp add: keys_def watchable_Store_def dom_update)

lemma keys_Delete [simp]: "keys (watchable_Delete key m) = keys m - {key}"
proof -
  have "set (map fst (AList.delete key m)) = set (map fst m) - {key}"
    by (simp only: delete_keys set_removeAll)
  then show ?thesis
    by (simp add: keys_def watchable_Delete_def)
qed

lemma Load_Store [simp]:
  "watchable_Load (watchable_Store key val m) k = (if k = key then Some val else watchable_Load m k)"
  by (simp add: watchable_Load_def watchable_Store_def update_conv')

lemma Load_Delete [simp]:
  "watchable_Load (watchable_Delete key m) k = (if k = key then None else watchable_Load m k)"
  by (simp add: watchable_Load_def watchable_Delete_def delete_conv')

lemma Load_eq_None_iff: "watchable_Load m k = None \<longleftrightarrow> k \<notin> keys m"
  by (simp add: watchable_Load_def keys_def map_of_eq_None_iff)

lemma storeEach_Nil [simp]: "storeEach [] m = m"
  by (simp add: storeEach_def)

lemma storeEach_Cons [simp]: "storeEach ((key, val) # kvs) m = storeEach kvs (watchable_Store key val m)"
  by (simp add: storeEach_def)

lemma storeEach_append [simp]: "storeEach (kvs @ kvs') m = storeEach kvs' (storeEach kvs m)"
  by (simp add: storeEach_def)

lemma keys_Nil [simp]: "keys [] = {}"
  by (simp add: keys_def)

lemma keys_Cons [simp]: "keys ((key, val) # m) = insert key (keys m)"
  by (simp add: keys_def)

lemma keys_storeEach [simp]: "keys (storeEach kvs m) = keys m \<union> keys kvs"
proof (induction kvs arbitrary: m)
  case Nil
  then show ?case by simp
next
  case (Cons kv kvs)
  then show ?case by (cases kv) auto
qed

lemma Load_storeEach_notin:
  "k \<notin> keys kvs \<Longrightarrow> watchable_Load (storeEach kvs m) k = watchable_Load m k"
proof (induction kvs arbitrary: m)
  case Nil
  then show ?case by simp
next
  case (Cons kv kvs)
  then show ?case by (cases kv) auto
qed

lemma Load_storeEach_last:
  "k \<notin> keys post \<Longrightarrow> watchable_Load (storeEach (pre @ (k, v) # post) m) k = Some v"
  by (simp add: Load_storeEach_notin)

lemma removeEach_Nil [simp]: "removeEach [] l = l"
  by (simp add: removeEach_def)

lemma removeEach_Cons [simp]: "removeEach (k # ks) l = removeEach ks (removeAll k l)"
  by (simp add: removeEach_def)

lemma removeEach_append [simp]: "removeEach (ks @ ks') l = removeEach ks' (removeEach ks l)"
  by (simp add: removeEach_def)

lemma set_removeEach [simp]: "set (removeEach ks l) = set l - set ks"
  by (induction ks arbitrary: l) auto

lemma deleteKeys_Nil [simp]: "deleteKeys [] m = m"
  by (simp add: deleteKeys_def)

lemma deleteKeys_Cons [simp]: "deleteKeys (k # ks) m = deleteKeys ks (watchable_Delete k m)"
  by (simp add: deleteKeys_def)

lemma keys_deleteKeys [simp]: "keys (deleteKeys ks m) = keys m - set ks"
  by (induction ks arbitrary: m) auto

lemma Load_deleteKeys [simp]:
  "watchable_Load (deleteKeys ks m) k = (if k \<in> set ks then None else watchable_Load m k)"
  by (induction ks arbitrary: m) auto

lemma deleteAll_eq_deleteKeys: "deleteAll (m :: ('a \<times> 'b) list) = deleteKeys (map fst m) m"
proof -
  have "fold (\<lambda>(key, _) m. watchable_Delete key m) kvs m' = deleteKeys (map fst kvs) m'"
    for kvs :: "('a \<times> 'b) list" and m' :: "('a \<times> 'b) list"
    by (induction kvs arbitrary: m') (auto simp add: deleteKeys_def)
  then show ?thesis
    by (simp add: deleteAll_def watchable_LoadAll_def)
qed

lemma keys_empty_iff: "keys m = {} \<longleftrightarrow> m = []"
  by (simp add: keys_def)

lemma deleteAll_empty [simp]: "deleteAll m = []"
proof -
  have "keys m - set (map fst m) = {}"
    by (simp add: keys_def)
  then have "keys (deleteAll m) = {}"
    by (simp only: deleteAll_eq_deleteKeys keys_deleteKeys)
  then show ?thesis
    by (simp only: keys_empty_iff)
qed

lemma set_loadKeys [simp]: "set (loadKeys (m :: ('a \<times> 'b) list)) = keys m"
proof -
  have "set (fold (\<lambda>(key, _) ds. List.insert key ds) kvs ks) = fst ` set kvs \<union> set ks"
    for kvs :: "('a \<times> 'b) list" and ks
    by (induction kvs arbitrary: ks) auto
  then show ?thesis
    by (simp add: loadKeys_def watchable_LoadAll_def keys_def)
qed

section \<open>The loops of the handler\<close>

lemma fold_publishInfraIR:
  "fold (publishInfraIR d) kvs (r, newIRKeys) =
     (r\<lparr>InfraIR := storeEach (filter (\<lambda>(key, val). Validate_infra d val = None) kvs) (InfraIR r),
        Logger := Logger r @ concat (map (infraLog d) kvs),
        errChan := errChan r @ List.map_filter (\<lambda>(key, val). Validate_infra d val) kvs\<rparr>,
      newIRKeys @ map fst (filter (\<lambda>(key, val). Validate_infra d val = None) kvs))"
proof (induction kvs arbitrary: r newIRKeys)
  case Nil
  show ?case by (simp add: map_filter_simps)
next
  case (Cons kv kvs)
  obtain key val where kv: "kv = (key, val)"
    by (cases kv)
  show ?case
    by (cases "Validate_infra d val") (simp_all add: kv Cons.IH infraLog_def map_filter_simps)
qed

lemma fold_publishXdsIR:
  "fold (publishXdsIR d) kvs r =
     r\<lparr>XdsIR := storeEach (filter (\<lambda>(key, val). Validate_xds d val = None) kvs) (XdsIR r),
       Logger := Logger r @ concat (map (xdsLog d) kvs),
       errChan := errChan r @ List.map_filter (\<lambda>(key, val). Validate_xds d val) kvs\<rparr>"
proof (induction kvs arbitrary: r)
  case Nil
  show ?case by (simp add: map_filter_simps)
next
  case (Cons kv kvs)
  obtain key val where kv: "kv = (key, val)"
    by (cases kv)
  show ?case
    by (cases "Validate_xds d val") (simp_all add: kv Cons.IH xdsLog_def map_filter_simps)
qed

lemma fold_storeGatewayStatus:
  "fold storeGatewayStatus objs (pr, ds) =
     (pr\<lparr>GatewayStatuses := storeEach (statusEntries objs) (GatewayStatuses pr)\<rparr>,
      ds\<lparr>GatewayStatusKeys := removeEach (map utils_NamespacedName objs) (GatewayStatusKeys ds)\<rparr>)"
  by (induction objs arbitrary: pr ds) (simp_all add: statusEntries_def Let_def)

lemma fold_storeHTTPRouteStatus:
  "fold storeHTTPRouteStatus objs (pr, ds) =
     (pr\<lparr>HTTPRouteStatuses := storeEach (statusEntries objs) (HTTPRouteStatuses pr)\<rparr>,
      ds\<lparr>HTTPRouteStatusKeys := removeEach (map utils_NamespacedName objs) (HTTPRouteStatusKeys ds)\<rparr>)"
  by (induction objs arbitrary: pr ds) (simp_all add: statusEntries_def Let_def)

lemma fold_storeGRPCRouteStatus:
  "fold storeGRPCRouteStatus objs (pr, ds) =
     (pr\<lparr>GRPCRouteStatuses := storeEach (statusEntries objs) (GRPCRouteStatuses pr)\<rparr>,
      ds\<lparr>GRPCRouteStatusKeys := removeEach (map utils_NamespacedName objs) (GRPCRouteStatusKeys ds)\<rparr>)"
  by (induction objs arbitrary: pr ds) (simp_all add: statusEntries_def Let_def)

lemma fold_storeTLSRouteStatus:
  "fold storeTLSRouteStatus objs (pr, ds) =
     (pr\<lparr>TLSRouteStatuses := storeEach (statusEntries objs) (TLSRouteStatuses pr)\<rparr>,
      ds\<lparr>TLSRouteStatusKeys := removeEach (map utils_NamespacedName objs) (TLSRouteStatusKeys ds)\<rparr>)"
  by (induction objs arbitrary: pr ds) (simp_all add: statusEntries_def Let_def)

lemma fold_storeTCPRouteStatus:
  "fold storeTCPRouteStatus objs (pr, ds) =
     (pr\<lparr>TCPRouteStatuses := storeEach (statusEntries objs) (TCPRouteStatuses pr)\<rparr>,
      ds\<lparr>TCPRouteStatusKeys := removeEach (map utils_NamespacedName objs) (TCPRouteStatusKeys ds)\<rparr>)"
  by (induction objs arbitrary: pr ds) (simp_all add: statusEntries_def Let_def)

lemma fold_storeUDPRouteStatus:
  "fold storeUDPRouteStatus objs (pr, ds) =
     (pr\<lparr>UDPRouteStatuses := storeEach (statusEntries objs) (UDPRouteStatuses pr)\<rparr>,
      ds\<lparr>UDPRouteStatusKeys := removeEach (map utils_NamespacedName objs) (UDPRouteStatusKeys ds)\<rparr>)"
  by (induction objs arbitrary: pr ds) (simp_all add: statusEntries_def Let_def)

lemma fold_storeBackendTLSPolicyStatus:
  "fold (storeBackendTLSPolicyStatus d) objs (pr, ds) =
     (pr\<lparr>BackendTLSPolicyStatuses := storeEach (statusEntries (nonZero d objs)) (BackendTLSPolicyStatuses pr)\<rparr>,
      ds\<lparr>BackendTLSPolicyStatusKeys := removeEach (map utils_NamespacedName objs) (BackendTLSPolicyStatusKeys ds)\<rparr>)"
  by (induction objs arbitrary: pr ds) (simp_all add: statusEntries_def nonZero_def Let_def)

lemma fold_storeClientTrafficPolicyStatus:
  "fold (storeClientTrafficPolicyStatus d) objs (pr, ds) =
     (pr\<lparr>ClientTrafficPolicyStatuses := storeEach (statusEntries (nonZero d objs)) (ClientTrafficPolicyStatuses pr)\<rparr>,
      ds\<lparr>ClientTrafficPolicyStatusKeys := removeEach (map utils_NamespacedName objs) (ClientTrafficPolicyStatusKeys ds)\<rparr>)"
  by (induction objs arbitrary: pr ds) (simp_all add: statusEntries_def nonZero_def Let_def)

lemma fold_storeBackendTrafficPolicyStatus:
  "fold (storeBackendTrafficPolicyStatus d) objs (pr, ds) =
     (pr\<lparr>BackendTrafficPolicyStatuses := storeEach (statusEntries (nonZero d objs)) (BackendTrafficPolicyStatuses pr)\<rparr>,
      ds\<lparr>BackendTrafficPolicyStatusKeys := removeEach (map utils_NamespacedName objs) (BackendTrafficPolicyStatusKeys ds)\<rparr>)"
  by (induction objs arbitrary: pr ds) (simp_all add: statusEntries_def nonZero_def Let_def)

lemma fold_storeSecurityPolicyStatus:
  "fold (storeSecurityPolicyStatus d) objs (pr, ds) =
     (pr\<lparr>SecurityPolicyStatuses := storeEach (statusEntries (nonZero d objs)) (SecurityPolicyStatuses pr)\<rparr>,
      ds\<lparr>SecurityPolicyStatusKeys := removeEach (map utils_NamespacedName objs) (SecurityPolicyStatusKeys ds)\<rparr>)"
  by (induction objs arbitrary: pr ds) (simp_all add: statusEntries_def nonZero_def Let_def)

lemma fold_storeEnvoyExtensionPolicyStatus:
  "fold (storeEnvoyExtensionPolicyStatus d) objs (pr, ds) =
     (pr\<lparr>EnvoyExtensionPolicyStatuses := storeEach (statusEntries (nonZero d objs)) (EnvoyExtensionPolicyStatuses pr)\<rparr>,
      ds\<lparr>EnvoyExtensionPolicyStatusKeys := removeEach (map utils_NamespacedName objs) (EnvoyExtensionPolicyStatusKeys ds)\<rparr>)"
  by (induction objs arbitrary: pr ds) (simp_all add: statusEntries_def nonZero_def Let_def)

lemma fold_storeBackendStatus:
  "fold (storeBackendStatus d) objs (pr, ds) =
     (pr\<lparr>BackendStatuses := storeEach (statusEntries (nonZero d objs)) (BackendStatuses pr)\<rparr>,
      ds\<lparr>BackendStatusKeys := removeEach (map utils_NamespacedName objs) (BackendStatusKeys ds)\<rparr>)"
  by (induction objs arbitrary: pr ds) (simp_all add: statusEntries_def nonZero_def Let_def)

lemma storeExtensionServerPolicyStatus_Inr:
  "\<not> panics p \<Longrightarrow>
   storeExtensionServerPolicyStatus d p (pr, ds) =
     Inr (pr\<lparr>ExtensionPolicyStatuses := storeEach (extStatusEntry d p) (ExtensionPolicyStatuses pr)\<rparr>,
          ds\<lparr>ExtensionServerPolicyStatusKeys :=
               removeAll (extKey p) (ExtensionServerPolicyStatusKeys ds)\<rparr>)"
  by (simp add: Let_def extKey_def split: any_value.splits option.splits bool.splits)

lemma storeExtensionServerPolicyStatus_Inl:
  "panics p \<Longrightarrow> \<exists>e. storeExtensionServerPolicyStatus d p acc = Inl e"
  by (cases acc) (simp add: Let_def split: any_value.splits option.splits bool.splits)

lemma storeExtensionServerPolicyStatuses_Inr:
  "\<forall>p \<in> set ps. \<not> panics p \<Longrightarrow>
   storeExtensionServerPolicyStatuses d ps (pr, ds) =
     Inr (pr\<lparr>ExtensionPolicyStatuses := storeEach (extStatusEntries d ps) (ExtensionPolicyStatuses pr)\<rparr>,
          ds\<lparr>ExtensionServerPolicyStatusKeys :=
               removeEach (map extKey ps) (ExtensionServerPolicyStatusKeys ds)\<rparr>)"
proof (induction ps arbitrary: pr ds)
  case Nil
  show ?case by (simp add: extStatusEntries_def)
next
  case (Cons p ps)
  from Cons.prems have rest: "\<forall>p \<in> set ps. \<not> panics p" and p: "\<not> panics p"
    by simp_all
  show ?case
    by (simp add: Cons.IH [OF rest] storeExtensionServerPolicyStatus_Inr [OF p] extStatusEntries_def
        del: storeExtensionServerPolicyStatus.simps extStatusEntry.simps)
qed

lemma storeExtensionServerPolicyStatuses_Inl:
  "\<exists>p \<in> set ps. panics p \<Longrightarrow> \<exists>e. storeExtensionServerPolicyStatuses d ps acc = Inl e"
proof (induction ps arbitrary: acc)
  case Nil
  then show ?case by simp
next
  case (Cons p ps)
  show ?case
  proof (cases "panics p")
    case True
    from storeExtensionServerPolicyStatus_Inl [OF this, of d acc] show ?thesis
      by (auto simp del: storeExtensionServerPolicyStatus.simps)
  next
    case False
    with Cons.prems have rest: "\<exists>p \<in> set ps. panics p"
      by simp
    obtain pr ds where acc: "acc = (pr, ds)"
      by (cases acc)
    from Cons.IH [OF rest] show ?thesis
      by (simp add: acc storeExtensionServerPolicyStatus_Inr [OF False]
          del: storeExtensionServerPolicyStatus.simps panics.simps)
  qed
qed
section \<open>The bundles of a snapshot\<close>

lemma statusesAfter_Nil [simp]: "statusesAfter d [] pr = pr"
  by (simp add: statusesAfter_def statusEntries_def nonZero_def extStatusEntries_def)

lemma candidatesAfter_Nil [simp]: "candidatesAfter [] ds = ds"
  by (simp add: candidatesAfter_def)

lemma statusEntries_append: "statusEntries (objs @ objs') = statusEntries objs @ statusEntries objs'"
  by (simp add: statusEntries_def)

lemma nonZero_append: "nonZero d (objs @ objs') = nonZero d objs @ nonZero d objs'"
  by (simp add: nonZero_def)

lemma extStatusEntries_append:
  "extStatusEntries d (ps @ ps') = extStatusEntries d ps @ extStatusEntries d ps'"
  by (simp add: extStatusEntries_def)

lemma statusesAfter_Cons:
  "statusesAfter d (result # results) pr = statusesAfter d results (statusesAfter d [result] pr)"
  by (simp add: statusesAfter_def statusEntries_append nonZero_append extStatusEntries_append)

lemma candidatesAfter_Cons:
  "candidatesAfter (result # results) ds = candidatesAfter results (candidatesAfter [result] ds)"
  by (simp add: candidatesAfter_def)

lemma updateStatus_Inr:
  assumes "\<forall>p \<in> set (ExtensionServerPolicies result). \<not> panics p"
  shows "updateStatus d result (pr, ds) =
           Inr (statusesAfter d [result] pr, candidatesAfter [result] ds)"
  unfolding updateStatus_def
  by (simp only: fold_storeGatewayStatus fold_storeHTTPRouteStatus fold_storeGRPCRouteStatus
        fold_storeTLSRouteStatus fold_storeTCPRouteStatus fold_storeUDPRouteStatus
        fold_storeBackendTLSPolicyStatus fold_storeClientTrafficPolicyStatus
        fold_storeBackendTrafficPolicyStatus fold_storeSecurityPolicyStatus
        fold_storeEnvoyExtensionPolicyStatus fold_storeBackendStatus
        storeExtensionServerPolicyStatuses_Inr [OF assms])
     (simp add: statusesAfter_def candidatesAfter_def)

lemma updateStatus_Inl:
  assumes "\<exists>p \<in> set (ExtensionServerPolicies result). panics p"
  shows "\<exists>e. updateStatus d result acc = Inl e"
  unfolding updateStatus_def
  by (rule storeExtensionServerPolicyStatuses_Inl [OF assms])

lemma processBundle_Inr:
  assumes "\<forall>p \<in> set (ExtensionServerPolicies (fst (Translate d resources))). \<not> panics p"
  shows "processBundle d resources (r, newIRKeys, ds) =
           Inr (r\<lparr>InfraIR := storeEach (validInfraIR d (fst (Translate d resources))) (InfraIR r),
                  XdsIR := storeEach (validXdsIR d (fst (Translate d resources))) (XdsIR r),
                  ProviderResources :=
                    statusesAfter d [fst (Translate d resources)] (ProviderResources r),
                  Logger := Logger r @ bundleLog d resources,
                  errChan := errChan r @ validationErrors d (fst (Translate d resources))\<rparr>,
                newIRKeys @ map fst (validInfraIR d (fst (Translate d resources))),
                candidatesAfter [fst (Translate d resources)] ds)"
proof -
  obtain result err where t: "Translate d resources = (result, err)"
    by (cases "Translate d resources")
  from assms t have ok: "\<forall>p \<in> set (ExtensionServerPolicies result). \<not> panics p"
    by simp
  show ?thesis
    by (cases err)
       (simp_all add: t fold_publishInfraIR fold_publishXdsIR updateStatus_Inr [OF ok]
          validInfraIR_def validXdsIR_def validationErrors_def bundleLog_def translationLog_def)
qed

lemma processBundle_Inl:
  assumes "\<exists>p \<in> set (ExtensionServerPolicies (fst (Translate d resources))). panics p"
  shows "\<exists>e. processBundle d resources acc = Inl e"
proof -
  obtain result err where t: "Translate d resources = (result, err)"
    by (cases "Translate d resources")
  obtain r newIRKeys ds where acc: "acc = (r, newIRKeys, ds)"
    by (cases acc)
  from assms t have bad: "\<exists>p \<in> set (ExtensionServerPolicies result). panics p"
    by simp
  obtain r2 newIRKeys' where f: "fold (publishInfraIR d) (InfraIR_result result)
      (case err of None \<Rightarrow> r
       | Some e \<Rightarrow> r\<lparr>Logger := Logger r @ [Error e ''errors detected during translation'']\<rparr>,
       newIRKeys) = (r2, newIRKeys')"
    by (cases "fold (publishInfraIR d) (InfraIR_result result)
      (case err of None \<Rightarrow> r
       | Some e \<Rightarrow> r\<lparr>Logger := Logger r @ [Error e ''errors detected during translation'']\<rparr>,
       newIRKeys)")
  from updateStatus_Inl [OF bad]
  obtain e where "updateStatus d result
      (ProviderResources (fold (publishXdsIR d) (XdsIR_result result) r2), ds) = Inl e"
    by blast
  then show ?thesis
    by (simp add: acc t f)
qed

lemma panicFree_Nil [simp]: "panicFree d []"
  by (simp add: panicFree_def produced_def translationResults_def)

lemma panicFree_Cons:
  "panicFree d (resources # val) \<longleftrightarrow>
     (\<forall>p \<in> set (ExtensionServerPolicies (fst (Translate d resources))). \<not> panics p)
     \<and> panicFree d val"
  by (auto simp add: panicFree_def produced_def translationResults_def)

lemma produced_Nil [simp]: "produced field d [] = []"
  by (simp add: produced_def translationResults_def)

lemma produced_Cons:
  "produced field d (resources # val) = field (fst (Translate d resources)) @ produced field d val"
  by (simp add: produced_def translationResults_def)

lemma translationResults_Nil [simp]: "translationResults d [] = []"
  by (simp add: translationResults_def)

lemma translationResults_Cons:
  "translationResults d (resources # val) = fst (Translate d resources) # translationResults d val"
  by (simp add: translationResults_def)

lemma processBundles_Inr:
  "panicFree d val \<Longrightarrow>
   processBundles d val (r, newIRKeys, ds) =
     Inr (r\<lparr>InfraIR := storeEach (produced (validInfraIR d) d val) (InfraIR r),
            XdsIR := storeEach (produced (validXdsIR d) d val) (XdsIR r),
            ProviderResources := statusesAfter d (translationResults d val) (ProviderResources r),
            Logger := Logger r @ concat (map (bundleLog d) val),
            errChan := errChan r @ produced (validationErrors d) d val\<rparr>,
          newIRKeys @ map fst (produced (validInfraIR d) d val),
          candidatesAfter (translationResults d val) ds)"
proof (induction val arbitrary: r newIRKeys ds)
  case Nil
  show ?case by simp
next
  case (Cons resources val)
  from Cons.prems
  have here: "\<forall>p \<in> set (ExtensionServerPolicies (fst (Translate d resources))). \<not> panics p"
    and rest: "panicFree d val"
    by (simp_all add: panicFree_Cons)
  show ?case
    by (simp add: processBundle_Inr [OF here] Cons.IH [OF rest] produced_Cons
          translationResults_Cons statusesAfter_Cons [symmetric] candidatesAfter_Cons [symmetric]
        del: processBundle.simps)
qed

lemma processBundles_Inl:
  "\<not> panicFree d val \<Longrightarrow> \<exists>e. processBundles d val acc = Inl e"
proof (induction val arbitrary: acc)
  case Nil
  then show ?case by simp
next
  case (Cons resources val)
  show ?case
  proof (cases "\<forall>p \<in> set (ExtensionServerPolicies (fst (Translate d resources))). \<not> panics p")
    case True
    with Cons.prems have rest: "\<not> panicFree d val"
      by (simp add: panicFree_Cons)
    obtain r newIRKeys ds where acc: "acc = (r, newIRKeys, ds)"
      by (cases acc)
    from Cons.IH [OF rest] show ?thesis
      by (simp add: acc processBundle_Inr [OF True] del: processBundle.simps)
  next
    case False
    then have "\<exists>p \<in> set (ExtensionServerPolicies (fst (Translate d resources))). panics p"
      by blast
    from processBundle_Inl [OF this, of acc] show ?thesis
      by (auto simp del: processBundle.simps)
  qed
qed

lemma fold_deleteIRKey:
  "fold deleteIRKey ks r =
     r\<lparr>InfraIR := deleteKeys ks (InfraIR r), XdsIR := deleteKeys ks (XdsIR r)\<rparr>"
  by (induction ks arbitrary: r) (simp_all add: deleteIRKey_def)

lemma deleteAllIRKeys_eq:
  "deleteAllIRKeys r =
     r\<lparr>InfraIR := [], XdsIR := deleteKeys (map fst (InfraIR r)) (XdsIR r)\<rparr>"
proof -
  have "fold (\<lambda>(key, _) r. deleteIRKey key r) kvs r' = fold deleteIRKey (map fst kvs) r'"
    for kvs :: "(string \<times> 'a) list" and r' :: "('a, 'b, 'c) Runner"
    by (induction kvs arbitrary: r') auto
  moreover have "deleteKeys (map fst (InfraIR r)) (InfraIR r) = []"
    using deleteAll_empty [of "InfraIR r"] by (simp only: deleteAll_eq_deleteKeys)
  ultimately show ?thesis
    by (simp add: deleteAllIRKeys_def watchable_LoadAll_def fold_deleteIRKey)
qed

section \<open>The handler\<close>

lemma getAllStatuses_Logger [simp]: "getAllStatuses (r\<lparr>Logger := l\<rparr>) = getAllStatuses r"
  by (simp add: getAllStatuses_def)

lemma received_fields [simp]:
  "InfraIR (received r) = InfraIR r"
  "XdsIR (received r) = XdsIR r"
  "ProviderResources (received r) = ProviderResources r"
  "Logger (received r) = Logger r @ [Info [] ''received an update'']"
  "errChan (received r) = errChan r"
  "getAllStatuses (received r) = getAllStatuses r"
  by (simp_all add: received_def)

lemma deleteStatusKeys_frame [simp]:
  "InfraIR (deleteStatusKeys ds r) = InfraIR r"
  "XdsIR (deleteStatusKeys ds r) = XdsIR r"
  "Logger (deleteStatusKeys ds r) = Logger r"
  "errChan (deleteStatusKeys ds r) = errChan r"
  by (simp_all add: deleteStatusKeys_def)

lemma deleteAllStatusKeys_frame [simp]:
  "InfraIR (deleteAllStatusKeys r) = InfraIR r"
  "XdsIR (deleteAllStatusKeys r) = XdsIR r"
  "Logger (deleteAllStatusKeys r) = Logger r"
  "errChan (deleteAllStatusKeys r) = errChan r"
  by (simp_all add: deleteAllStatusKeys_def)

text \<open>
  A value whose status loops do not panic: the handler returns, and this is the state
  it returns, field by field.
\<close>

lemma handle_value:
  assumes "\<not> Delete u" and "Value u = Some val" and "panicFree d val"
  shows "\<exists>r'. handle d r u = Inr r'
    \<and> InfraIR r' =
        deleteKeys (getIRKeysToDelete (map fst (InfraIR r))
                      (map fst (produced (validInfraIR d) d val)))
          (storeEach (produced (validInfraIR d) d val) (InfraIR r))
    \<and> XdsIR r' =
        deleteKeys (getIRKeysToDelete (map fst (InfraIR r))
                      (map fst (produced (validInfraIR d) d val)))
          (storeEach (produced (validXdsIR d) d val) (XdsIR r))
    \<and> ProviderResources r' =
        ProviderResources
          (deleteStatusKeys (candidatesAfter (translationResults d val) (getAllStatuses r))
             (r\<lparr>ProviderResources :=
                  statusesAfter d (translationResults d val) (ProviderResources r)\<rparr>))
    \<and> Logger r' = Logger r @ Info [] ''received an update'' # concat (map (bundleLog d) val)
    \<and> errChan r' = errChan r @ produced (validationErrors d) d val"
  using assms
  by (simp add: handle_def Let_def processBundles_Inr fold_deleteIRKey watchable_LoadAll_def)
     (simp add: deleteStatusKeys_def)

lemma handle_value_panic:
  assumes "\<not> Delete u" and "Value u = Some val" and "\<not> panicFree d val"
  shows "\<exists>e. handle d r u = Inl e"
proof -
  from processBundles_Inl [OF assms(3)]
  obtain e where "processBundles d val (received r, [], getAllStatuses (received r)) = Inl e"
    by blast
  with assms(1,2) show ?thesis
    by (simp add: handle_def Let_def)
qed

text \<open>A delete and a nil value: the handler returns, and this is the state it returns.\<close>

lemma handle_teardown:
  assumes "Delete u \<or> Value u = None"
  shows "\<exists>r'. handle d r u = Inr r'
    \<and> InfraIR r' = []
    \<and> XdsIR r' = deleteKeys (map fst (InfraIR r)) (XdsIR r)
    \<and> GatewayStatuses (ProviderResources r') = []
    \<and> HTTPRouteStatuses (ProviderResources r') = []
    \<and> GRPCRouteStatuses (ProviderResources r') = []
    \<and> TLSRouteStatuses (ProviderResources r') = []
    \<and> TCPRouteStatuses (ProviderResources r') = []
    \<and> UDPRouteStatuses (ProviderResources r') = []
    \<and> BackendTLSPolicyStatuses (ProviderResources r') = []
    \<and> ClientTrafficPolicyStatuses (ProviderResources r') = []
    \<and> BackendTrafficPolicyStatuses (ProviderResources r') = []
    \<and> SecurityPolicyStatuses (ProviderResources r') = []
    \<and> EnvoyExtensionPolicyStatuses (ProviderResources r') = []
    \<and> ExtensionPolicyStatuses (ProviderResources r') = []
    \<and> BackendStatuses (ProviderResources r') = []
    \<and> Logger r' = Logger r @ [Info [] ''received an update'']
    \<and> errChan r' = errChan r"
  using assms
  by (auto simp add: handle_def Let_def deleteAllIRKeys_eq deleteAllStatusKeys_def)


text \<open>
  The handler returns unless the value holds an extension server policy on whose status
  the last status loop panics.
\<close>

lemma handle_returns_iff:
  "(\<exists>r'. handle d r u = Inr r') \<longleftrightarrow>
     Delete u \<or> Value u = None \<or> panicFree d (the (Value u))"
proof (cases "Delete u \<or> Value u = None")
  case True
  with handle_teardown [OF True, of d r] show ?thesis
    by blast
next
  case False
  then obtain val where v: "Value u = Some val" and nd: "\<not> Delete u"
    by auto
  show ?thesis
  proof (cases "panicFree d val")
    case True
    with handle_value [OF nd v True, of r] v show ?thesis
      by auto
  next
    case no: False
    with handle_value_panic [OF nd v no, of r] v nd show ?thesis
      by auto
  qed
qed

lemma fst_set_keys: "fst ` set m = keys m"
  by (simp only: keys_def)

lemma set_map_fst_keys: "set (map fst m) = keys m"
  by (simp only: keys_def set_map)

lemma in_keysI: "(key, val) \<in> set m \<Longrightarrow> key \<in> keys m"
  unfolding keys_def by force

text \<open>The key sets of the two planes after a value.\<close>

lemma keys_after_value:
  assumes "\<not> Delete u" and "Value u = Some val" and "panicFree d val"
  shows "\<exists>r'. handle d r u = Inr r'
    \<and> keys (InfraIR r') = keys (produced (validInfraIR d) d val)
    \<and> keys (XdsIR r') =
        (keys (XdsIR r) \<union> keys (produced (validXdsIR d) d val))
        - (keys (InfraIR r) - keys (produced (validInfraIR d) d val))"
proof -
  from handle_value [OF assms, of r]
  obtain r' where h: "handle d r u = Inr r'"
    and i: "InfraIR r' =
        deleteKeys (getIRKeysToDelete (map fst (InfraIR r))
                      (map fst (produced (validInfraIR d) d val)))
          (storeEach (produced (validInfraIR d) d val) (InfraIR r))"
    and x: "XdsIR r' =
        deleteKeys (getIRKeysToDelete (map fst (InfraIR r))
                      (map fst (produced (validInfraIR d) d val)))
          (storeEach (produced (validXdsIR d) d val) (XdsIR r))"
    by blast
  have "keys (InfraIR r') = keys (produced (validInfraIR d) d val)"
    unfolding i by (auto simp add: set_getIRKeysToDelete fst_set_keys)
  moreover have "keys (XdsIR r') =
        (keys (XdsIR r) \<union> keys (produced (validXdsIR d) d val))
        - (keys (InfraIR r) - keys (produced (validInfraIR d) d val))"
    unfolding x by (auto simp add: set_getIRKeysToDelete fst_set_keys)
  ultimately show ?thesis
    using h by blast
qed

section \<open>Splitting a snapshot, and maps without repeated keys\<close>

lemma panicFree_append:
  "panicFree d (pre @ post) \<longleftrightarrow> panicFree d pre \<and> panicFree d post"
  by (auto simp add: panicFree_def produced_def translationResults_def)

lemma produced_append:
  "produced field d (pre @ post) = produced field d pre @ produced field d post"
  by (simp add: produced_def translationResults_def)

lemma keys_append: "keys (m @ m') = keys m \<union> keys m'"
  by (simp add: keys_def image_Un)

lemma processBundles_append_Cons:
  assumes "processBundles d pre acc = Inr acc1"
    and "processBundle d resources acc1 = Inr acc2"
    and "processBundles d post acc2 = Inr acc3"
  shows "processBundles d (pre @ resources # post) acc = Inr acc3"
  using assms
  by (induction pre arbitrary: acc) (auto simp del: processBundle.simps split: sum.splits)

lemma Load_storeEach_filter_in:
  assumes "distinct (map fst kvs)" and "(key, val) \<in> set kvs" and "P (key, val)"
  shows "watchable_Load (storeEach (filter P kvs) m) key = Some val"
proof -
  from assms(2,3) have "(key, val) \<in> set (filter P kvs)"
    by simp
  then obtain pre post where split: "filter P kvs = pre @ (key, val) # post"
    by (auto simp add: in_set_conv_decomp)
  from assms(1) have "distinct (map fst (filter P kvs))"
    by (rule distinct_map_filter)
  then have "key \<notin> keys post"
    unfolding split by (simp add: keys_def)
  then show ?thesis
    unfolding split by (rule Load_storeEach_last)
qed

lemma Load_storeEach_filter_out:
  assumes "distinct (map fst kvs)" and "(key, val) \<in> set kvs" and "\<not> P (key, val)"
  shows "watchable_Load (storeEach (filter P kvs) m) key = watchable_Load m key"
proof -
  have "key \<notin> keys (filter P kvs)"
  proof
    assume "key \<in> keys (filter P kvs)"
    then obtain val' where in': "(key, val') \<in> set kvs" and p: "P (key, val')"
      by (auto simp add: keys_def)
    from assms(1,2) in' have "val' = val"
      by (meson eq_key_imp_eq_value)
    with p assms(3) show False
      by simp
  qed
  then show ?thesis
    by (rule Load_storeEach_notin)
qed

lemma keys_filter_out:
  assumes "distinct (map fst kvs)" and "(key, val) \<in> set kvs" and "\<not> P (key, val)"
  shows "key \<notin> keys (filter P kvs)"
proof
  assume "key \<in> keys (filter P kvs)"
  then obtain val' where in': "(key, val') \<in> set kvs" and p: "P (key, val')"
    by (auto simp add: keys_def)
  from assms(1,2) in' have "val' = val"
    by (meson eq_key_imp_eq_value)
  with p assms(3) show False
    by simp
qed

lemma length_map_filter:
  "length (List.map_filter f xs) = length (filter (\<lambda>x. f x \<noteq> None) xs)"
  by (induction xs) (auto simp add: map_filter_simps split: option.splits)

lemma set_map_filter: "set (List.map_filter f xs) = {y. \<exists>x \<in> set xs. f x = Some y}"
  by (induction xs) (auto simp add: map_filter_simps split: option.splits)

section \<open>The status stores after a value\<close>

lemma objectsOf_eq:
  "objectsOf Gateway = Gateways"
  "objectsOf HTTPRoute = HTTPRoutes"
  "objectsOf GRPCRoute = GRPCRoutes"
  "objectsOf TLSRoute = TLSRoutes"
  "objectsOf TCPRoute = TCPRoutes"
  "objectsOf UDPRoute = UDPRoutes"
  "objectsOf BackendTLSPolicy = BackendTLSPolicies"
  "objectsOf ClientTrafficPolicy = ClientTrafficPolicies"
  "objectsOf BackendTrafficPolicy = BackendTrafficPolicies"
  "objectsOf SecurityPolicy = SecurityPolicies"
  "objectsOf EnvoyExtensionPolicy = EnvoyExtensionPolicies"
  "objectsOf Backend = Backends"
  by (rule ext, simp)+

lemma removeEach_empty [simp]: "removeEach ks [] = []"
  by (induction ks) simp_all

lemma concat_map_produced: "concat (map field (translationResults d val)) = produced field d val"
  by (simp add: produced_def)

text \<open>
  Each of the twelve stores keyed by namespace and name: the statuses that its loop
  stores are stored in order, then the keys that it held before the generation and
  that no bundle produced are deleted. The store of the extension server policies:
  the statuses are stored, and nothing is deleted.
\<close>

lemma status_stores_after_value:
  assumes "\<not> Delete u" and "Value u = Some val" and "panicFree d val"
  shows "\<exists>r'. handle d r u = Inr r'
    \<and> (\<forall>kind. statusStore kind (ProviderResources r') =
          deleteKeys
            (removeEach (map utils_NamespacedName (produced (objectsOf kind) d val))
               (loadKeys (statusStore kind (ProviderResources r))))
            (storeEach
               (statusEntries
                  (filter (\<lambda>obj. \<not> (skipsZero kind \<and> IsZero d (Status obj)))
                     (produced (objectsOf kind) d val)))
               (statusStore kind (ProviderResources r))))
    \<and> ExtensionPolicyStatuses (ProviderResources r') =
        storeEach (extStatusEntries d (produced ExtensionServerPolicies d val))
          (ExtensionPolicyStatuses (ProviderResources r))"
proof -
  from handle_value [OF assms, of r]
  obtain r' where h: "handle d r u = Inr r'"
    and pr: "ProviderResources r' =
        ProviderResources
          (deleteStatusKeys (candidatesAfter (translationResults d val) (getAllStatuses r))
             (r\<lparr>ProviderResources :=
                  statusesAfter d (translationResults d val) (ProviderResources r)\<rparr>))"
    by blast
  have "statusStore kind (ProviderResources r') =
          deleteKeys
            (removeEach (map utils_NamespacedName (produced (objectsOf kind) d val))
               (loadKeys (statusStore kind (ProviderResources r))))
            (storeEach
               (statusEntries
                  (filter (\<lambda>obj. \<not> (skipsZero kind \<and> IsZero d (Status obj)))
                     (produced (objectsOf kind) d val)))
               (statusStore kind (ProviderResources r)))" for kind
    unfolding pr
    by (cases kind)
       (simp_all add: deleteStatusKeys_def statusesAfter_def candidatesAfter_def
          getAllStatuses_def concat_map_produced nonZero_def objectsOf_eq)
  moreover have "ExtensionPolicyStatuses (ProviderResources r') =
        storeEach (extStatusEntries d (produced ExtensionServerPolicies d val))
          (ExtensionPolicyStatuses (ProviderResources r))"
    unfolding pr
    by (simp add: deleteStatusKeys_def statusesAfter_def candidatesAfter_def
          getAllStatuses_def concat_map_produced)
  ultimately show ?thesis
    using h by blast
qed

lemma keys_statusEntries: "keys (statusEntries objs) = utils_NamespacedName ` set objs"
  by (simp add: statusEntries_def keys_def image_image)






section \<open>The state after a value, key by key\<close>

lemma Load_storeEach:
  "watchable_Load (storeEach kvs m) key =
     (case map_of (rev kvs) key of Some v \<Rightarrow> Some v | None \<Rightarrow> watchable_Load m key)"
proof (induction kvs arbitrary: m)
  case Nil
  show ?case by simp
next
  case (Cons kv kvs)
  obtain k v where kv: "kv = (k, v)"
    by (cases kv)
  show ?case
    by (simp add: kv Cons.IH map_add_def split: option.splits)
qed

lemma map_of_rev_None_iff: "map_of (rev kvs) key = None \<longleftrightarrow> key \<notin> keys kvs"
  by (simp add: map_of_eq_None_iff keys_def)




text \<open>
  A value from which the handler returns: its status loops do not panic, and this is
  the state returned, plane by plane and store by store, as a lookup of every key.
  In the InfraIR plane a key has the last entry of the generation that passed
  validation for it, and no entry if there is none. In the XdsIR plane a key that was
  in the InfraIR plane before and has no valid InfraIR entry in the generation has no
  entry; any other key has the last XdsIR entry that passed validation for it, or what
  it had before. In a status store keyed by namespace and name, a key that was there
  before and that no bundle produced has no entry; any other key has the last status
  that the loop of its kind stored, or what it had before. In the store of the
  extension server policies a key has the last status stored, or what it had before.
\<close>

lemma state_after_value:
  assumes h: "handle d r u = Inr r'" and nd: "\<not> Delete u" and v: "Value u = Some val"
  shows "panicFree d val"
    and "watchable_Load (InfraIR r') key = map_of (rev (produced (validInfraIR d) d val)) key"
    and "watchable_Load (XdsIR r') key =
      (if key \<in> keys (InfraIR r) \<and> key \<notin> keys (produced (validInfraIR d) d val) then None
       else case map_of (rev (produced (validXdsIR d) d val)) key of
              Some x \<Rightarrow> Some x
            | None \<Rightarrow> watchable_Load (XdsIR r) key)"
    and "errChan r' = errChan r @ produced (validationErrors d) d val"
    and "Logger r' = Logger r @ Info [] ''received an update'' # concat (map (bundleLog d) val)"
    and "watchable_Load (statusStore kind (ProviderResources r')) name =
      (if name \<in> keys (statusStore kind (ProviderResources r))
            \<and> name \<notin> utils_NamespacedName ` set (produced (objectsOf kind) d val) then None
       else case map_of
                   (rev (statusEntries
                           (filter (\<lambda>obj. \<not> (skipsZero kind \<and> IsZero d (Status obj)))
                              (produced (objectsOf kind) d val)))) name of
              Some st \<Rightarrow> Some st
            | None \<Rightarrow> watchable_Load (statusStore kind (ProviderResources r)) name)"
    and "watchable_Load (ExtensionPolicyStatuses (ProviderResources r')) ekey =
      (case map_of (rev (extStatusEntries d (produced ExtensionServerPolicies d val))) ekey of
         Some st \<Rightarrow> Some st
       | None \<Rightarrow> watchable_Load (ExtensionPolicyStatuses (ProviderResources r)) ekey)"
proof -
  show free: "panicFree d val"
  proof (rule ccontr)
    assume "\<not> panicFree d val"
    from handle_value_panic [OF nd v this, of r] h show False
      by simp
  qed
  from handle_value [OF nd v free, of r] h
  have i: "InfraIR r' =
        deleteKeys (getIRKeysToDelete (map fst (InfraIR r))
                      (map fst (produced (validInfraIR d) d val)))
          (storeEach (produced (validInfraIR d) d val) (InfraIR r))"
    and x: "XdsIR r' =
        deleteKeys (getIRKeysToDelete (map fst (InfraIR r))
                      (map fst (produced (validInfraIR d) d val)))
          (storeEach (produced (validXdsIR d) d val) (XdsIR r))"
    and e: "errChan r' = errChan r @ produced (validationErrors d) d val"
    and l: "Logger r' = Logger r @ Info [] ''received an update'' # concat (map (bundleLog d) val)"
    by auto
  from status_stores_after_value [OF nd v free, of r] h
  have st: "statusStore kind (ProviderResources r') =
          deleteKeys
            (removeEach (map utils_NamespacedName (produced (objectsOf kind) d val))
               (loadKeys (statusStore kind (ProviderResources r))))
            (storeEach
               (statusEntries
                  (filter (\<lambda>obj. \<not> (skipsZero kind \<and> IsZero d (Status obj)))
                     (produced (objectsOf kind) d val)))
               (statusStore kind (ProviderResources r)))"
    and ex: "ExtensionPolicyStatuses (ProviderResources r') =
        storeEach (extStatusEntries d (produced ExtensionServerPolicies d val))
          (ExtensionPolicyStatuses (ProviderResources r))"
    by auto
  have del: "set (getIRKeysToDelete (map fst (InfraIR r))
                      (map fst (produced (validInfraIR d) d val)))
      = keys (InfraIR r) - keys (produced (validInfraIR d) d val)"
    by (simp add: set_getIRKeysToDelete fst_set_keys)
  show "watchable_Load (InfraIR r') key = map_of (rev (produced (validInfraIR d) d val)) key"
  proof (cases "map_of (rev (produced (validInfraIR d) d val)) key")
    case None
    then have "key \<notin> keys (produced (validInfraIR d) d val)"
      using map_of_rev_None_iff [of "produced (validInfraIR d) d val" key] by simp
    then show ?thesis
      using None by (simp add: i del Load_storeEach Load_eq_None_iff)
  next
    case (Some a)
    then have "key \<in> keys (produced (validInfraIR d) d val)"
      using map_of_rev_None_iff [of "produced (validInfraIR d) d val" key] by simp
    then show ?thesis
      using Some by (simp add: i del Load_storeEach)
  qed
  show "watchable_Load (XdsIR r') key =
      (if key \<in> keys (InfraIR r) \<and> key \<notin> keys (produced (validInfraIR d) d val) then None
       else case map_of (rev (produced (validXdsIR d) d val)) key of
              Some x \<Rightarrow> Some x
            | None \<Rightarrow> watchable_Load (XdsIR r) key)"
    by (simp add: x del Load_storeEach)
  show "errChan r' = errChan r @ produced (validationErrors d) d val"
    by (rule e)
  show "Logger r' = Logger r @ Info [] ''received an update'' # concat (map (bundleLog d) val)"
    by (rule l)
  show "watchable_Load (statusStore kind (ProviderResources r')) name =
      (if name \<in> keys (statusStore kind (ProviderResources r))
            \<and> name \<notin> utils_NamespacedName ` set (produced (objectsOf kind) d val) then None
       else case map_of
                   (rev (statusEntries
                           (filter (\<lambda>obj. \<not> (skipsZero kind \<and> IsZero d (Status obj)))
                              (produced (objectsOf kind) d val)))) name of
              Some st \<Rightarrow> Some st
            | None \<Rightarrow> watchable_Load (statusStore kind (ProviderResources r)) name)"
    by (simp add: st Load_storeEach)
  show "watchable_Load (ExtensionPolicyStatuses (ProviderResources r')) ekey =
      (case map_of (rev (extStatusEntries d (produced ExtensionServerPolicies d val))) ekey of
         Some st \<Rightarrow> Some st
       | None \<Rightarrow> watchable_Load (ExtensionPolicyStatuses (ProviderResources r)) ekey)"
    by (simp add: ex Load_storeEach)
qed


section \<open>The key sets of the two planes\<close>

text \<open>
  Claim C1, as stated, fails. From the empty state, a snapshot of one bundle whose
  InfraIR entry for \<open>gw1\<close> passes validation and whose XdsIR entry for \<open>gw1\<close> does not
  leaves \<open>gw1\<close> in the InfraIR plane and nothing in the XdsIR plane: each of the two
  publishing loops (lines 172-181 and 183-191) has its own validation guard.
\<close>

theorem planes_differ_after_generation:
  "\<not> isl (handle exDeps emptyRunner (valueEvent [''bad-xds'']))
   \<and> keys (InfraIR (after emptyRunner (valueEvent [''bad-xds'']))) = {''gw1''}
   \<and> keys (XdsIR (after emptyRunner (valueEvent [''bad-xds'']))) = {}
   \<and> keys (InfraIR (after emptyRunner (valueEvent [''bad-xds''])))
       \<noteq> keys (XdsIR (after emptyRunner (valueEvent [''bad-xds''])))"
proof -
  have a: "\<not> isl (handle exDeps emptyRunner (valueEvent [''bad-xds'']))"
    by code_simp
  have b: "keys (InfraIR (after emptyRunner (valueEvent [''bad-xds'']))) = {''gw1''}"
    by code_simp
  have c: "keys (XdsIR (after emptyRunner (valueEvent [''bad-xds'']))) = {}"
    by code_simp
  from b c have "keys (InfraIR (after emptyRunner (valueEvent [''bad-xds''])))
       \<noteq> keys (XdsIR (after emptyRunner (valueEvent [''bad-xds''])))"
    by (simp only: insert_not_empty not_False_eq_True)
  with a b c show ?thesis
    by blast
qed

text \<open>
  Claim C1, amended. For a value whose status loops do not panic, the handler returns
  and every key that the generation deletes is absent from both planes afterwards,
  whatever the planes held before. If moreover the two planes hold the same keys
  before the generation, and the keys whose InfraIR entries pass validation in this
  generation are the keys whose XdsIR entries pass validation, then the two planes
  hold the same keys afterwards, namely those keys.
\<close>

theorem planes_agree_after_generation:
  assumes "\<not> Delete u" and "Value u = Some val" and "panicFree d val"
  shows "\<exists>r'. handle d r u = Inr r'
    \<and> (\<forall>key \<in> set (getIRKeysToDelete (map fst (InfraIR r))
                       (map fst (produced (validInfraIR d) d val))).
          key \<notin> keys (InfraIR r') \<and> key \<notin> keys (XdsIR r'))
    \<and> (keys (InfraIR r) = keys (XdsIR r)
         \<and> keys (produced (validInfraIR d) d val) = keys (produced (validXdsIR d) d val)
       \<longrightarrow> keys (InfraIR r') = keys (XdsIR r')
           \<and> keys (InfraIR r') = keys (produced (validInfraIR d) d val))"
proof -
  from keys_after_value [OF assms(1-3), of r]
  obtain r' where h: "handle d r u = Inr r'"
    and i: "keys (InfraIR r') = keys (produced (validInfraIR d) d val)"
    and x: "keys (XdsIR r') =
        (keys (XdsIR r) \<union> keys (produced (validXdsIR d) d val))
        - (keys (InfraIR r) - keys (produced (validInfraIR d) d val))"
    by blast
  have gone: "\<forall>key \<in> set (getIRKeysToDelete (map fst (InfraIR r))
                       (map fst (produced (validInfraIR d) d val))).
          key \<notin> keys (InfraIR r') \<and> key \<notin> keys (XdsIR r')"
    by (simp add: i x set_getIRKeysToDelete fst_set_keys)
  have same: "keys (InfraIR r') = keys (XdsIR r')
           \<and> keys (InfraIR r') = keys (produced (validInfraIR d) d val)"
    if "keys (InfraIR r) = keys (XdsIR r)"
      and "keys (produced (validInfraIR d) d val) = keys (produced (validXdsIR d) d val)"
    using that i x by auto
  from h gone same show ?thesis
    by blast
qed

theorem planes_agree_after_generation_witness:
  "\<not> Delete (valueEvent [''accepted''])
   \<and> Value (valueEvent [''accepted'']) = Some [''accepted'']
   \<and> panicFree exDeps [''accepted'']
   \<and> keys (InfraIR afterGood) = keys (XdsIR afterGood)
   \<and> keys (produced (validInfraIR exDeps) exDeps [''accepted''])
       = keys (produced (validXdsIR exDeps) exDeps [''accepted''])
   \<and> getIRKeysToDelete (map fst (InfraIR afterGood))
        (map fst (produced (validInfraIR exDeps) exDeps [''accepted''])) = [''gw1'']
   \<and> (\<exists>r'. handle exDeps afterGood (valueEvent [''accepted'']) = Inr r'
        \<and> ''gw1'' \<notin> keys (InfraIR r') \<and> ''gw1'' \<notin> keys (XdsIR r')
        \<and> keys (InfraIR r') = keys (XdsIR r')
        \<and> keys (InfraIR r') = keys (produced (validInfraIR exDeps) exDeps [''accepted'']))"
proof -
  have a: "\<not> Delete (valueEvent [''accepted''])"
    by (simp add: valueEvent_def)
  have b: "Value (valueEvent [''accepted'']) = Some [''accepted'']"
    by (simp add: valueEvent_def)
  have c: "panicFree exDeps [''accepted'']"
    by code_simp
  have d: "keys (InfraIR afterGood) = keys (XdsIR afterGood)"
    by code_simp
  have e: "keys (produced (validInfraIR exDeps) exDeps [''accepted''])
       = keys (produced (validXdsIR exDeps) exDeps [''accepted''])"
    by code_simp
  have f: "getIRKeysToDelete (map fst (InfraIR afterGood))
        (map fst (produced (validInfraIR exDeps) exDeps [''accepted''])) = [''gw1'']"
    by code_simp
  from planes_agree_after_generation [OF a b c, of afterGood]
  obtain r' where h: "handle exDeps afterGood (valueEvent [''accepted'']) = Inr r'"
    and gone: "\<forall>key \<in> set (getIRKeysToDelete (map fst (InfraIR afterGood))
                       (map fst (produced (validInfraIR exDeps) exDeps [''accepted'']))).
          key \<notin> keys (InfraIR r') \<and> key \<notin> keys (XdsIR r')"
    and same: "keys (InfraIR afterGood) = keys (XdsIR afterGood)
         \<and> keys (produced (validInfraIR exDeps) exDeps [''accepted''])
             = keys (produced (validXdsIR exDeps) exDeps [''accepted''])
       \<longrightarrow> keys (InfraIR r') = keys (XdsIR r')
           \<and> keys (InfraIR r') = keys (produced (validInfraIR exDeps) exDeps [''accepted''])"
    by blast
  from gone have g1: "''gw1'' \<notin> keys (InfraIR r') \<and> ''gw1'' \<notin> keys (XdsIR r')"
    unfolding f by simp
  from same d e have g2: "keys (InfraIR r') = keys (XdsIR r')
           \<and> keys (InfraIR r') = keys (produced (validInfraIR exDeps) exDeps [''accepted''])"
    by blast
  from h g1 g2 have "\<exists>r'. handle exDeps afterGood (valueEvent [''accepted'']) = Inr r'
        \<and> ''gw1'' \<notin> keys (InfraIR r') \<and> ''gw1'' \<notin> keys (XdsIR r')
        \<and> keys (InfraIR r') = keys (XdsIR r')
        \<and> keys (InfraIR r') = keys (produced (validInfraIR exDeps) exDeps [''accepted''])"
    by blast
  with a b c d e f show ?thesis
    by (intro conjI)
qed




section \<open>Publication and cleanup within a generation\<close>

lemma processBundles_keys_grow:
  assumes "panicFree d (pre @ post)"
  shows "\<exists>rm nk dm. processBundles d pre (r, newIRKeys, ds) = Inr (rm, nk, dm)
    \<and> InfraIR rm = storeEach (produced (validInfraIR d) d pre) (InfraIR r)
    \<and> XdsIR rm = storeEach (produced (validXdsIR d) d pre) (XdsIR r)
    \<and> nk = newIRKeys @ map fst (produced (validInfraIR d) d pre)"
proof -
  from assms have "panicFree d pre"
    by (simp add: panicFree_append)
  from processBundles_Inr [OF this, of r newIRKeys ds] show ?thesis
    by simp
qed

text \<open>
  Claim C8. In a generation that returns, let \<open>newIRKeys\<close> be the accumulator after
  the last bundle and \<open>rp\<close> the state at that point. No key of \<open>newIRKeys\<close> is among
  the keys that the cleanup deletes, the cleanup leaves the entries of such a key in
  both planes as the bundles left them, and the key is in the InfraIR plane at the end.
  Before the cleanup nothing is deleted: at every point between two bundles (the start
  of the generation included) the keys of each plane are among its keys after the last
  bundle, and the accumulator only grows.
\<close>

theorem produced_keys_never_deleted:
  assumes "\<not> Delete u" and "Value u = Some val" and "panicFree d val"
  shows "\<exists>rp newIRKeys ds r'.
      processBundles d val (received r, [], getAllStatuses (received r)) = Inr (rp, newIRKeys, ds)
    \<and> handle d r u = Inr r'
    \<and> (\<forall>key \<in> set newIRKeys.
          key \<notin> set (getIRKeysToDelete (map fst (InfraIR r)) newIRKeys)
        \<and> watchable_Load (InfraIR r') key = watchable_Load (InfraIR rp) key
        \<and> watchable_Load (XdsIR r') key = watchable_Load (XdsIR rp) key
        \<and> key \<in> keys (InfraIR r'))
    \<and> (\<forall>pre post. val = pre @ post \<longrightarrow>
          (\<exists>rm nk dm.
              processBundles d pre (received r, [], getAllStatuses (received r)) = Inr (rm, nk, dm)
            \<and> keys (InfraIR rm) \<subseteq> keys (InfraIR rp)
            \<and> keys (XdsIR rm) \<subseteq> keys (XdsIR rp)
            \<and> set nk \<subseteq> set newIRKeys))"
proof -
  let ?start = "(received r, [], getAllStatuses (received r))"
  let ?new = "map fst (produced (validInfraIR d) d val)"
  from assms(3) have "panicFree d (val @ [])"
    by simp
  from processBundles_keys_grow [OF this, of "received r" "[]" "getAllStatuses (received r)"]
  obtain rp ds where p: "processBundles d val ?start = Inr (rp, ?new, ds)"
    and pi: "InfraIR rp = storeEach (produced (validInfraIR d) d val) (InfraIR r)"
    and px: "XdsIR rp = storeEach (produced (validXdsIR d) d val) (XdsIR r)"
    by auto
  from handle_value [OF assms, of r]
  obtain r' where h: "handle d r u = Inr r'"
    and i: "InfraIR r' = deleteKeys (getIRKeysToDelete (map fst (InfraIR r)) ?new) (InfraIR rp)"
    and x: "XdsIR r' = deleteKeys (getIRKeysToDelete (map fst (InfraIR r)) ?new) (XdsIR rp)"
    unfolding pi px by blast
  have kept: "key \<notin> set (getIRKeysToDelete (map fst (InfraIR r)) ?new)
        \<and> watchable_Load (InfraIR r') key = watchable_Load (InfraIR rp) key
        \<and> watchable_Load (XdsIR r') key = watchable_Load (XdsIR rp) key
        \<and> key \<in> keys (InfraIR r')"
    if "key \<in> set ?new" for key
  proof -
    from that have out: "key \<notin> set (getIRKeysToDelete (map fst (InfraIR r)) ?new)"
      by (simp add: set_getIRKeysToDelete fst_set_keys)
    from that have "key \<in> keys (InfraIR rp)"
      by (simp add: pi fst_set_keys)
    with out show ?thesis
      by (simp add: i x)
  qed
  have grow: "\<exists>rm nk dm. processBundles d pre ?start = Inr (rm, nk, dm)
            \<and> keys (InfraIR rm) \<subseteq> keys (InfraIR rp)
            \<and> keys (XdsIR rm) \<subseteq> keys (XdsIR rp)
            \<and> set nk \<subseteq> set ?new"
    if "val = pre @ post" for pre post
  proof -
    from that assms(3) have "panicFree d (pre @ post)"
      by simp
    from processBundles_keys_grow [OF this, of "received r" "[]" "getAllStatuses (received r)"]
    obtain rm nk dm where m: "processBundles d pre ?start = Inr (rm, nk, dm)"
      and mi: "InfraIR rm = storeEach (produced (validInfraIR d) d pre) (InfraIR r)"
      and mx: "XdsIR rm = storeEach (produced (validXdsIR d) d pre) (XdsIR r)"
      and mk: "nk = map fst (produced (validInfraIR d) d pre)"
      by auto
    have "keys (InfraIR rm) \<subseteq> keys (InfraIR rp)"
      by (auto simp add: mi pi that produced_append keys_append)
    moreover have "keys (XdsIR rm) \<subseteq> keys (XdsIR rp)"
      by (auto simp add: mx px that produced_append keys_append)
    moreover have "set nk \<subseteq> set ?new"
      by (auto simp add: mk that produced_append fst_set_keys keys_append)
    ultimately show ?thesis
      using m by blast
  qed
  from p h kept grow show ?thesis
    by blast
qed

theorem produced_keys_never_deleted_witness:
  "\<not> Delete (valueEvent [''good'', ''accepted''])
   \<and> Value (valueEvent [''good'', ''accepted'']) = Some [''good'', ''accepted'']
   \<and> panicFree exDeps [''good'', ''accepted'']
   \<and> keys (InfraIR afterGood) = {''gw1''}
   \<and> (\<exists>rp newIRKeys ds r'.
        processBundles exDeps [''good'', ''accepted'']
          (received afterGood, [], getAllStatuses (received afterGood)) = Inr (rp, newIRKeys, ds)
      \<and> handle exDeps afterGood (valueEvent [''good'', ''accepted'']) = Inr r'
      \<and> (\<forall>key \<in> set newIRKeys.
            key \<notin> set (getIRKeysToDelete (map fst (InfraIR afterGood)) newIRKeys)
          \<and> watchable_Load (InfraIR r') key = watchable_Load (InfraIR rp) key
          \<and> watchable_Load (XdsIR r') key = watchable_Load (XdsIR rp) key
          \<and> key \<in> keys (InfraIR r'))
      \<and> (\<forall>pre post. [''good'', ''accepted''] = pre @ post \<longrightarrow>
            (\<exists>rm nk dm.
                processBundles exDeps pre
                  (received afterGood, [], getAllStatuses (received afterGood)) = Inr (rm, nk, dm)
              \<and> keys (InfraIR rm) \<subseteq> keys (InfraIR rp)
              \<and> keys (XdsIR rm) \<subseteq> keys (XdsIR rp)
              \<and> set nk \<subseteq> set newIRKeys)))"
proof -
  have a: "\<not> Delete (valueEvent [''good'', ''accepted''])"
    by (simp add: valueEvent_def)
  have b: "Value (valueEvent [''good'', ''accepted'']) = Some [''good'', ''accepted'']"
    by (simp add: valueEvent_def)
  have c: "panicFree exDeps [''good'', ''accepted'']"
    by code_simp
  have e: "keys (InfraIR afterGood) = {''gw1''}"
    by code_simp
  from produced_keys_never_deleted [OF a b c, of afterGood] a b c e show ?thesis
    by (intro conjI) assumption+
qed

text \<open>
  The publishing loops of one bundle (lines 172-191), before the cleanup. Take any
  bundle of a snapshot whose status loops do not panic, and the state \<open>r1\<close> in which
  the loop over the bundles reaches it. Its two result maps being maps (no key twice),
  after this bundle: an entry that passes validation is the stored entry of its key in
  its plane, and an InfraIR key that passes is in the new-key accumulator, then and
  after the last bundle; an entry that fails validation leaves the stored entry of its
  key as it was and adds nothing to the accumulator. The error channel receives the
  validation errors of the bundle, one for each failing entry and nothing else. The
  bundles before and after are processed all the same.
\<close>

lemma publishing_loops_isolate_failures:
  assumes "panicFree d (pre @ resources # post)"
    and "result = fst (Translate d resources)"
    and "distinct (map fst (InfraIR_result result))"
    and "distinct (map fst (XdsIR_result result))"
  shows "\<exists>r1 nk1 ds1 r2 nk2 ds2 r3 nk3 ds3.
      processBundles d pre (r, newIRKeys, ds) = Inr (r1, nk1, ds1)
    \<and> processBundle d resources (r1, nk1, ds1) = Inr (r2, nk2, ds2)
    \<and> processBundles d post (r2, nk2, ds2) = Inr (r3, nk3, ds3)
    \<and> processBundles d (pre @ resources # post) (r, newIRKeys, ds) = Inr (r3, nk3, ds3)
    \<and> (\<forall>(key, val) \<in> set (InfraIR_result result).
          (Validate_infra d val = None \<longrightarrow>
             watchable_Load (InfraIR r2) key = Some val \<and> key \<in> set nk2 \<and> key \<in> set nk3)
        \<and> (Validate_infra d val \<noteq> None \<longrightarrow>
             watchable_Load (InfraIR r2) key = watchable_Load (InfraIR r1) key
             \<and> (key \<in> set nk2 \<longleftrightarrow> key \<in> set nk1)))
    \<and> (\<forall>(key, val) \<in> set (XdsIR_result result).
          (Validate_xds d val = None \<longrightarrow> watchable_Load (XdsIR r2) key = Some val)
        \<and> (Validate_xds d val \<noteq> None \<longrightarrow>
             watchable_Load (XdsIR r2) key = watchable_Load (XdsIR r1) key))
    \<and> errChan r2 = errChan r1 @ validationErrors d result
    \<and> length (validationErrors d result) =
        length (filter (\<lambda>(key, val). Validate_infra d val \<noteq> None) (InfraIR_result result))
        + length (filter (\<lambda>(key, val). Validate_xds d val \<noteq> None) (XdsIR_result result))
    \<and> (\<forall>(key, val) \<in> set (InfraIR_result result).
          \<forall>err. Validate_infra d val = Some err \<longrightarrow> err \<in> set (validationErrors d result))
    \<and> (\<forall>(key, val) \<in> set (XdsIR_result result).
          \<forall>err. Validate_xds d val = Some err \<longrightarrow> err \<in> set (validationErrors d result))
    \<and> errChan r3 = errChan r @ produced (validationErrors d) d (pre @ resources # post)"
proof -
  from assms(1) have fpre: "panicFree d pre" and fpost: "panicFree d post"
    and fhere: "\<forall>p \<in> set (ExtensionServerPolicies (fst (Translate d resources))). \<not> panics p"
    by (simp_all add: panicFree_append panicFree_Cons)
  note s1 = processBundles_Inr [OF fpre, of r newIRKeys ds]
  obtain r1 nk1 ds1 where a1: "processBundles d pre (r, newIRKeys, ds) = Inr (r1, nk1, ds1)"
    and e1: "errChan r1 = errChan r @ produced (validationErrors d) d pre"
    using s1 by simp
  note s2 = processBundle_Inr [OF fhere, of r1 nk1 ds1]
  obtain r2 nk2 ds2 where a2: "processBundle d resources (r1, nk1, ds1) = Inr (r2, nk2, ds2)"
    and i2: "InfraIR r2 = storeEach (validInfraIR d result) (InfraIR r1)"
    and x2: "XdsIR r2 = storeEach (validXdsIR d result) (XdsIR r1)"
    and k2: "nk2 = nk1 @ map fst (validInfraIR d result)"
    and e2: "errChan r2 = errChan r1 @ validationErrors d result"
    using s2 unfolding assms(2) by simp
  note s3 = processBundles_Inr [OF fpost, of r2 nk2 ds2]
  obtain r3 nk3 ds3 where a3: "processBundles d post (r2, nk2, ds2) = Inr (r3, nk3, ds3)"
    and k3: "nk3 = nk2 @ map fst (produced (validInfraIR d) d post)"
    and e3: "errChan r3 = errChan r2 @ produced (validationErrors d) d post"
    using s3 by simp
  have all: "processBundles d (pre @ resources # post) (r, newIRKeys, ds) = Inr (r3, nk3, ds3)"
    using a1 a2 a3 by (rule processBundles_append_Cons)
  have nk2set: "set nk2 = set nk1 \<union> keys (validInfraIR d result)"
    unfolding k2 by (simp only: set_append set_map_fst_keys)
  have nk3set: "set nk3 = set nk2 \<union> keys (produced (validInfraIR d) d post)"
    unfolding k3 by (simp only: set_append set_map_fst_keys)
  let ?okI = "\<lambda>(key, val). Validate_infra d val = None"
  let ?okX = "\<lambda>(key, val). Validate_xds d val = None"
  have infra: "(Validate_infra d val = None \<longrightarrow>
             watchable_Load (InfraIR r2) key = Some val \<and> key \<in> set nk2 \<and> key \<in> set nk3)
        \<and> (Validate_infra d val \<noteq> None \<longrightarrow>
             watchable_Load (InfraIR r2) key = watchable_Load (InfraIR r1) key
             \<and> (key \<in> set nk2 \<longleftrightarrow> key \<in> set nk1))"
    if mem: "(key, val) \<in> set (InfraIR_result result)" for key val
  proof (cases "Validate_infra d val")
    case None
    then have ok: "?okI (key, val)"
      by simp
    from Load_storeEach_filter_in [OF assms(3) mem, of ?okI, OF ok]
    have "watchable_Load (InfraIR r2) key = Some val"
      by (simp add: i2 validInfraIR_def)
    moreover from mem ok have "(key, val) \<in> set (validInfraIR d result)"
      by (simp add: validInfraIR_def)
    then have "key \<in> keys (validInfraIR d result)"
      by (rule in_keysI)
    then have "key \<in> set nk2" "key \<in> set nk3"
      by (simp_all add: nk2set nk3set)
    ultimately show ?thesis
      using None by simp
  next
    case (Some err)
    then have bad: "\<not> ?okI (key, val)"
      by simp
    from Load_storeEach_filter_out [OF assms(3) mem, of ?okI, OF bad]
    have "watchable_Load (InfraIR r2) key = watchable_Load (InfraIR r1) key"
      by (simp add: i2 validInfraIR_def)
    moreover from keys_filter_out [OF assms(3) mem, of ?okI, OF bad]
    have "key \<notin> keys (validInfraIR d result)"
      unfolding validInfraIR_def .
    then have "key \<in> set nk2 \<longleftrightarrow> key \<in> set nk1"
      by (simp add: nk2set)
    ultimately show ?thesis
      using Some by simp
  qed
  have xds: "(Validate_xds d val = None \<longrightarrow> watchable_Load (XdsIR r2) key = Some val)
        \<and> (Validate_xds d val \<noteq> None \<longrightarrow>
             watchable_Load (XdsIR r2) key = watchable_Load (XdsIR r1) key)"
    if mem: "(key, val) \<in> set (XdsIR_result result)" for key val
  proof (cases "Validate_xds d val")
    case None
    then have ok: "?okX (key, val)"
      by simp
    from Load_storeEach_filter_in [OF assms(4) mem, of ?okX, OF ok]
    have "watchable_Load (XdsIR r2) key = Some val"
      by (simp add: x2 validXdsIR_def)
    then show ?thesis
      using None by simp
  next
    case (Some err)
    then have bad: "\<not> ?okX (key, val)"
      by simp
    from Load_storeEach_filter_out [OF assms(4) mem, of ?okX, OF bad]
    have "watchable_Load (XdsIR r2) key = watchable_Load (XdsIR r1) key"
      by (simp add: x2 validXdsIR_def)
    then show ?thesis
      using Some by simp
  qed
  have count: "length (validationErrors d result) =
        length (filter (\<lambda>(key, val). Validate_infra d val \<noteq> None) (InfraIR_result result))
        + length (filter (\<lambda>(key, val). Validate_xds d val \<noteq> None) (XdsIR_result result))"
    by (simp add: validationErrors_def length_map_filter case_prod_unfold)
  have ierr: "err \<in> set (validationErrors d result)"
    if "(key, val) \<in> set (InfraIR_result result)" and "Validate_infra d val = Some err"
    for key val err
    using that by (force simp add: validationErrors_def set_map_filter)
  have xerr: "err \<in> set (validationErrors d result)"
    if "(key, val) \<in> set (XdsIR_result result)" and "Validate_xds d val = Some err"
    for key val err
    using that by (force simp add: validationErrors_def set_map_filter)
  have total: "errChan r3 = errChan r @ produced (validationErrors d) d (pre @ resources # post)"
    by (simp add: e1 e2 e3 produced_append produced_Cons assms(2))
  from a1 a2 a3 all infra xds e2 count ierr xerr total show ?thesis
    by blast
qed




section \<open>The status stores\<close>




text \<open>
  What a value does to the keys of the status stores. For each of the twelve kinds
  keyed by namespace and name, a key leaves the store exactly when it was there
  before the generation and no bundle produced a resource with it. No key ever
  leaves the store of the extension server policies.
\<close>

lemma status_key_deleted_iff:
  assumes "\<not> Delete u" and "Value u = Some val" and "panicFree d val"
  shows "\<exists>r'. handle d r u = Inr r'
    \<and> (\<forall>kind key.
          (key \<in> keys (statusStore kind (ProviderResources r))
             \<and> key \<notin> keys (statusStore kind (ProviderResources r')))
          \<longleftrightarrow> (key \<in> keys (statusStore kind (ProviderResources r))
             \<and> key \<notin> utils_NamespacedName ` set (produced (objectsOf kind) d val)))
    \<and> keys (ExtensionPolicyStatuses (ProviderResources r))
        \<subseteq> keys (ExtensionPolicyStatuses (ProviderResources r'))"
proof -
  from status_stores_after_value [OF assms, of r]
  obtain r' where h: "handle d r u = Inr r'"
    and st: "\<And>kind. statusStore kind (ProviderResources r') =
          deleteKeys
            (removeEach (map utils_NamespacedName (produced (objectsOf kind) d val))
               (loadKeys (statusStore kind (ProviderResources r))))
            (storeEach
               (statusEntries
                  (filter (\<lambda>obj. \<not> (skipsZero kind \<and> IsZero d (Status obj)))
                     (produced (objectsOf kind) d val)))
               (statusStore kind (ProviderResources r)))"
    and ex: "ExtensionPolicyStatuses (ProviderResources r') =
        storeEach (extStatusEntries d (produced ExtensionServerPolicies d val))
          (ExtensionPolicyStatuses (ProviderResources r))"
    by blast
  have "(key \<in> keys (statusStore kind (ProviderResources r))
             \<and> key \<notin> keys (statusStore kind (ProviderResources r')))
          \<longleftrightarrow> (key \<in> keys (statusStore kind (ProviderResources r))
             \<and> key \<notin> utils_NamespacedName ` set (produced (objectsOf kind) d val))"
    for kind key
    unfolding st by (auto simp add: keys_statusEntries)
  moreover have "keys (ExtensionPolicyStatuses (ProviderResources r))
        \<subseteq> keys (ExtensionPolicyStatuses (ProviderResources r'))"
    unfolding ex by simp
  ultimately show ?thesis
    using h by blast
qed

text \<open>
  Claim C3 holds for twelve kinds (the lemma above) and fails for the extension server
  policies, whose stored status is never deleted by a value: \<^verbatim>\<open>getAllStatuses\<close> makes
  the map \<^verbatim>\<open>ExtensionServerPolicyStatusKeys\<close> and has no loop that fills it from the
  store. The status of the policy \<open>ns/ext\<close> is stored by one generation; the next
  generation has an empty snapshot; the status of the gateway and of the security
  policy are deleted, that of the extension server policy stays.
\<close>

theorem extension_policy_status_is_never_deleted:
  "handle exDeps emptyRunner (valueEvent [''accepted'']) = Inr afterAccepted
   \<and> keys (ExtensionPolicyStatuses (ProviderResources afterAccepted))
       = {((''ns'', ''ext''), (''example.io'', ''v1'', ''Foo''))}
   \<and> ExtensionServerPolicyStatusKeys (getAllStatuses afterAccepted) = []
   \<and> produced ExtensionServerPolicies exDeps [] = []
   \<and> \<not> isl (handle exDeps afterAccepted (valueEvent []))
   \<and> keys (ExtensionPolicyStatuses (ProviderResources (after afterAccepted (valueEvent []))))
       = {((''ns'', ''ext''), (''example.io'', ''v1'', ''Foo''))}
   \<and> keys (GatewayStatuses (ProviderResources (after afterAccepted (valueEvent [])))) = {}
   \<and> keys (SecurityPolicyStatuses (ProviderResources (after afterAccepted (valueEvent [])))) = {}"
proof -
  have a: "handle exDeps emptyRunner (valueEvent [''accepted'']) = Inr afterAccepted"
    by code_simp
  have b: "keys (ExtensionPolicyStatuses (ProviderResources afterAccepted))
       = {((''ns'', ''ext''), (''example.io'', ''v1'', ''Foo''))}"
    by code_simp
  have c: "ExtensionServerPolicyStatusKeys (getAllStatuses afterAccepted) = []"
    by code_simp
  have d: "produced ExtensionServerPolicies exDeps [] = []"
    by code_simp
  have e: "\<not> isl (handle exDeps afterAccepted (valueEvent []))"
    by code_simp
  have f: "keys (ExtensionPolicyStatuses (ProviderResources (after afterAccepted (valueEvent []))))
       = {((''ns'', ''ext''), (''example.io'', ''v1'', ''Foo''))}"
    by code_simp
  have g: "keys (GatewayStatuses (ProviderResources (after afterAccepted (valueEvent [])))) = {}"
    by code_simp
  have i: "keys (SecurityPolicyStatuses (ProviderResources (after afterAccepted (valueEvent [])))) = {}"
    by code_simp
  from a b c d e f g i show ?thesis
    by (intro conjI)
qed

section \<open>Teardown\<close>

text \<open>
  What a delete or a nil value does: the InfraIR plane and the thirteen status stores
  are emptied, and the XdsIR plane loses the keys that the InfraIR plane held.
\<close>

lemma teardown_effect:
  assumes "Delete u \<or> Value u = None"
  shows "\<exists>r'. handle d r u = Inr r'
    \<and> keys (InfraIR r') = {}
    \<and> keys (XdsIR r') = keys (XdsIR r) - keys (InfraIR r)
    \<and> keys (GatewayStatuses (ProviderResources r')) = {}
    \<and> keys (HTTPRouteStatuses (ProviderResources r')) = {}
    \<and> keys (GRPCRouteStatuses (ProviderResources r')) = {}
    \<and> keys (TLSRouteStatuses (ProviderResources r')) = {}
    \<and> keys (TCPRouteStatuses (ProviderResources r')) = {}
    \<and> keys (UDPRouteStatuses (ProviderResources r')) = {}
    \<and> keys (BackendTLSPolicyStatuses (ProviderResources r')) = {}
    \<and> keys (ClientTrafficPolicyStatuses (ProviderResources r')) = {}
    \<and> keys (BackendTrafficPolicyStatuses (ProviderResources r')) = {}
    \<and> keys (SecurityPolicyStatuses (ProviderResources r')) = {}
    \<and> keys (EnvoyExtensionPolicyStatuses (ProviderResources r')) = {}
    \<and> keys (ExtensionPolicyStatuses (ProviderResources r')) = {}
    \<and> keys (BackendStatuses (ProviderResources r')) = {}"
proof -
  from handle_teardown [OF assms, of d r]
  obtain r' where h: "handle d r u = Inr r'"
    and i: "InfraIR r' = []"
    and x: "XdsIR r' = deleteKeys (map fst (InfraIR r)) (XdsIR r)"
    and s: "GatewayStatuses (ProviderResources r') = []"
      "HTTPRouteStatuses (ProviderResources r') = []"
      "GRPCRouteStatuses (ProviderResources r') = []"
      "TLSRouteStatuses (ProviderResources r') = []"
      "TCPRouteStatuses (ProviderResources r') = []"
      "UDPRouteStatuses (ProviderResources r') = []"
      "BackendTLSPolicyStatuses (ProviderResources r') = []"
      "ClientTrafficPolicyStatuses (ProviderResources r') = []"
      "BackendTrafficPolicyStatuses (ProviderResources r') = []"
      "SecurityPolicyStatuses (ProviderResources r') = []"
      "EnvoyExtensionPolicyStatuses (ProviderResources r') = []"
      "ExtensionPolicyStatuses (ProviderResources r') = []"
      "BackendStatuses (ProviderResources r') = []"
    by blast
  have "keys (XdsIR r') = keys (XdsIR r) - keys (InfraIR r)"
    unfolding x by (simp add: fst_set_keys)
  with h i s show ?thesis
    by simp
qed

text \<open>
  Claim C2 fails for a key that is in the XdsIR plane and not in the InfraIR plane:
  \<^verbatim>\<open>deleteAllIRKeys\<close> walks the keys of the InfraIR plane only. Such a state is reached
  from the empty state by a snapshot whose InfraIR entry for \<open>gw1\<close> is rejected and
  whose XdsIR entry for \<open>gw1\<close> is accepted; the delete that follows leaves \<open>gw1\<close> in
  the XdsIR plane.
\<close>

theorem teardown_keeps_xds_only_key:
  "handle exDeps emptyRunner (valueEvent [''bad-infra'']) = Inr afterBadInfra
   \<and> keys (InfraIR afterBadInfra) = {}
   \<and> keys (XdsIR afterBadInfra) = {''gw1''}
   \<and> \<not> isl (handle exDeps afterBadInfra deleteEvent)
   \<and> keys (XdsIR (after afterBadInfra deleteEvent)) = {''gw1''}"
proof -
  have a: "handle exDeps emptyRunner (valueEvent [''bad-infra'']) = Inr afterBadInfra"
    by code_simp
  have b: "keys (InfraIR afterBadInfra) = {}"
    by code_simp
  have c: "keys (XdsIR afterBadInfra) = {''gw1''}"
    by code_simp
  have d: "\<not> isl (handle exDeps afterBadInfra deleteEvent)"
    by code_simp
  have e: "keys (XdsIR (after afterBadInfra deleteEvent)) = {''gw1''}"
    by code_simp
  from a b c d e show ?thesis
    by (intro conjI)
qed

section \<open>Errors of the translator\<close>

lemma processBundle_eq:
  "processBundle d resources (r, newIRKeys, ds) =
     (case updateStatus d (fst (Translate d resources)) (ProviderResources r, ds) of
        Inl p \<Rightarrow> Inl p
      | Inr (pr, ds') \<Rightarrow>
          Inr (r\<lparr>InfraIR := storeEach (validInfraIR d (fst (Translate d resources))) (InfraIR r),
                 XdsIR := storeEach (validXdsIR d (fst (Translate d resources))) (XdsIR r),
                 ProviderResources := pr,
                 Logger := Logger r @ bundleLog d resources,
                 errChan := errChan r @ validationErrors d (fst (Translate d resources))\<rparr>,
               newIRKeys @ map fst (validInfraIR d (fst (Translate d resources))),
               ds'))"
proof -
  obtain result err where t: "Translate d resources = (result, err)"
    by (cases "Translate d resources")
  show ?thesis
    by (cases err)
       (simp_all add: t fold_publishInfraIR fold_publishXdsIR
          validInfraIR_def validXdsIR_def validationErrors_def bundleLog_def translationLog_def
          split: sum.splits)
qed

lemma withoutTranslationErrors_fields [simp]:
  "fst (Translate (withoutTranslationErrors d) resources) = fst (Translate d resources)"
  "snd (Translate (withoutTranslationErrors d) resources) = None"
  "Validate_infra (withoutTranslationErrors d) = Validate_infra d"
  "Validate_xds (withoutTranslationErrors d) = Validate_xds d"
  "IsZero (withoutTranslationErrors d) = IsZero d"
  "json_roundtrip (withoutTranslationErrors d) = json_roundtrip d"
  by (simp_all add: withoutTranslationErrors_def)

lemma withoutTranslationErrors_valid [simp]:
  "validInfraIR (withoutTranslationErrors d) result = validInfraIR d result"
  "validXdsIR (withoutTranslationErrors d) result = validXdsIR d result"
  "validationErrors (withoutTranslationErrors d) result = validationErrors d result"
  by (simp_all add: validInfraIR_def validXdsIR_def validationErrors_def)

lemma storeExtensionServerPolicyStatuses_withoutTranslationErrors:
  "storeExtensionServerPolicyStatuses (withoutTranslationErrors d) ps acc =
     storeExtensionServerPolicyStatuses d ps acc"
proof (induction ps arbitrary: acc)
  case Nil
  show ?case by simp
next
  case (Cons p ps)
  obtain pr ds where acc: "acc = (pr, ds)"
    by (cases acc)
  have "storeExtensionServerPolicyStatus (withoutTranslationErrors d) p (pr, ds) =
          storeExtensionServerPolicyStatus d p (pr, ds)"
    by (simp add: Let_def unstructuredToPolicyStatus_def
          split: any_value.splits option.splits bool.splits)
  then show ?case
    by (simp add: acc Cons.IH del: storeExtensionServerPolicyStatus.simps split: sum.splits)
qed

lemma policy_steps_withoutTranslationErrors:
  "storeBackendTLSPolicyStatus (withoutTranslationErrors d) = storeBackendTLSPolicyStatus d"
  "storeClientTrafficPolicyStatus (withoutTranslationErrors d) = storeClientTrafficPolicyStatus d"
  "storeBackendTrafficPolicyStatus (withoutTranslationErrors d) = storeBackendTrafficPolicyStatus d"
  "storeSecurityPolicyStatus (withoutTranslationErrors d) = storeSecurityPolicyStatus d"
  "storeEnvoyExtensionPolicyStatus (withoutTranslationErrors d) = storeEnvoyExtensionPolicyStatus d"
  "storeBackendStatus (withoutTranslationErrors d) = storeBackendStatus d"
  by (rule ext, rule ext, simp add: split_paired_all)+

lemma updateStatus_withoutTranslationErrors:
  "updateStatus (withoutTranslationErrors d) result acc = updateStatus d result acc"
  by (simp add: updateStatus_def policy_steps_withoutTranslationErrors
        storeExtensionServerPolicyStatuses_withoutTranslationErrors)

text \<open>
  The loop over the bundles, with and without the errors of the translator, started in
  two states that differ in the log at most: both panic with the same panic, or both
  return, the same accumulator and candidates and states that differ in the log at most.
\<close>

lemma processBundles_withoutTranslationErrors:
  assumes "stores r = stores s"
  shows "map_sum id (\<lambda>(r', nk', ds'). (stores r', nk', ds'))
           (processBundles d val (r, newIRKeys, ds))
       = map_sum id (\<lambda>(r', nk', ds'). (stores r', nk', ds'))
           (processBundles (withoutTranslationErrors d) val (s, newIRKeys, ds))"
  using assms
proof (induction val arbitrary: r s newIRKeys ds)
  case Nil
  then show ?case by simp
next
  case (Cons resources val)
  from Cons.prems have pr: "ProviderResources s = ProviderResources r"
    by (simp add: stores_def)
  show ?case
  proof (cases "updateStatus d (fst (Translate d resources)) (ProviderResources r, ds)")
    case (Inl p)
    then show ?thesis
      by (simp add: processBundle_eq updateStatus_withoutTranslationErrors pr
            del: processBundle.simps)
  next
    case (Inr acc)
    obtain pr' ds' where acc: "acc = (pr', ds')"
      by (cases acc)
    let ?result = "fst (Translate d resources)"
    let ?r = "r\<lparr>InfraIR := storeEach (validInfraIR d ?result) (InfraIR r),
                 XdsIR := storeEach (validXdsIR d ?result) (XdsIR r),
                 ProviderResources := pr',
                 Logger := Logger r @ bundleLog d resources,
                 errChan := errChan r @ validationErrors d ?result\<rparr>"
    let ?s = "s\<lparr>InfraIR := storeEach (validInfraIR d ?result) (InfraIR s),
                 XdsIR := storeEach (validXdsIR d ?result) (XdsIR s),
                 ProviderResources := pr',
                 Logger := Logger s @ bundleLog (withoutTranslationErrors d) resources,
                 errChan := errChan s @ validationErrors d ?result\<rparr>"
    from Cons.prems have same: "stores ?r = stores ?s"
      by (simp add: stores_def)
    have "processBundle d resources (r, newIRKeys, ds) =
            Inr (?r, newIRKeys @ map fst (validInfraIR d ?result), ds')"
      by (simp add: processBundle_eq Inr acc del: processBundle.simps)
    moreover have "processBundle (withoutTranslationErrors d) resources (s, newIRKeys, ds) =
            Inr (?s, newIRKeys @ map fst (validInfraIR d ?result), ds')"
      by (simp add: processBundle_eq updateStatus_withoutTranslationErrors pr Inr acc
            del: processBundle.simps)
    ultimately show ?thesis
      using Cons.IH [OF same] by (simp del: processBundle.simps)
  qed
qed

lemma stores_cleanup:
  assumes "stores r = stores s"
  shows "stores (deleteStatusKeys ds (fold deleteIRKey ks r))
       = stores (deleteStatusKeys ds (fold deleteIRKey ks s))"
  using assms by (simp add: stores_def fold_deleteIRKey deleteStatusKeys_def)

text \<open>
  Claim C9. Whether the translator returns errors or not, the handler does the same
  but for the log: it panics with the same panic or returns with the same planes,
  status stores and error channel. And a value either makes a status loop panic or
  the handler returns from it, with every step of the generation done on the results
  that the translator returned, with or without an error. The log holds every error
  of the translator. Publication: each plane maps a key to the last entry of the
  generation that passed validation for it, and the error channel has received the
  validation errors. Status update: a status store maps a key to the last status that
  the loop of its kind stored for it. Cleanup: a key that was in the InfraIR plane
  before and has no valid InfraIR entry in the generation has no entry in either
  plane, and a key that was in a status store keyed by namespace and name before and
  that no bundle produced has no entry in that store. Any other key of the XdsIR plane
  or of a status store keeps what it held before.
\<close>

theorem translation_error_is_only_logged:
  "map_sum id stores (handle d r u) = map_sum id stores (handle (withoutTranslationErrors d) r u)
   \<and> (\<forall>val. \<not> Delete u \<and> Value u = Some val \<longrightarrow>
       (if panicFree d val then
          (\<exists>r'. handle d r u = Inr r'
          \<and> Logger r' = Logger r @ Info [] ''received an update'' # concat (map (bundleLog d) val)
          \<and> (\<forall>resources \<in> set val. \<forall>e. snd (Translate d resources) = Some e \<longrightarrow>
                Error e ''errors detected during translation'' \<in> set (Logger r'))
          \<and> (\<forall>key. watchable_Load (InfraIR r') key
                = map_of (rev (produced (validInfraIR d) d val)) key)
          \<and> (\<forall>key. watchable_Load (XdsIR r') key =
                (if key \<in> keys (InfraIR r) \<and> key \<notin> keys (produced (validInfraIR d) d val)
                 then None
                 else case map_of (rev (produced (validXdsIR d) d val)) key of
                        Some x \<Rightarrow> Some x
                      | None \<Rightarrow> watchable_Load (XdsIR r) key))
          \<and> errChan r' = errChan r @ produced (validationErrors d) d val
          \<and> (\<forall>kind name. watchable_Load (statusStore kind (ProviderResources r')) name =
                (if name \<in> keys (statusStore kind (ProviderResources r))
                      \<and> name \<notin> utils_NamespacedName ` set (produced (objectsOf kind) d val)
                 then None
                 else case map_of
                             (rev (statusEntries
                                     (filter (\<lambda>obj. \<not> (skipsZero kind \<and> IsZero d (Status obj)))
                                        (produced (objectsOf kind) d val)))) name of
                        Some st \<Rightarrow> Some st
                      | None \<Rightarrow> watchable_Load (statusStore kind (ProviderResources r)) name))
          \<and> (\<forall>ekey. watchable_Load (ExtensionPolicyStatuses (ProviderResources r')) ekey =
                (case map_of (rev (extStatusEntries d (produced ExtensionServerPolicies d val))) ekey of
                   Some st \<Rightarrow> Some st
                 | None \<Rightarrow> watchable_Load (ExtensionPolicyStatuses (ProviderResources r)) ekey)))
        else (\<exists>p. handle d r u = Inl p)))"
proof -
  have same: "map_sum id stores (handle d r u)
      = map_sum id stores (handle (withoutTranslationErrors d) r u)"
  proof (cases "Delete u \<or> Value u = None")
    case True
    then show ?thesis
      by (simp add: handle_def)
  next
    case False
    then obtain val where v: "Value u = Some val" and nd: "\<not> Delete u"
      by auto
    let ?start = "(received r, [], getAllStatuses r)"
    from processBundles_withoutTranslationErrors [of "received r" "received r" d val "[]"
        "getAllStatuses r", OF refl]
    have rel: "map_sum id (\<lambda>(r', nk', ds'). (stores r', nk', ds')) (processBundles d val ?start)
       = map_sum id (\<lambda>(r', nk', ds'). (stores r', nk', ds'))
           (processBundles (withoutTranslationErrors d) val ?start)" .
    show ?thesis
    proof (cases "processBundles d val ?start")
      case (Inl p)
      with rel have "processBundles (withoutTranslationErrors d) val ?start = Inl p"
        by (cases "processBundles (withoutTranslationErrors d) val ?start") simp_all
      with Inl v nd show ?thesis
        by (simp add: handle_def Let_def)
    next
      case (Inr acc)
      obtain r1 nk ds where acc: "acc = (r1, nk, ds)"
        by (cases acc)
      from rel Inr acc
      obtain s1 where other: "processBundles (withoutTranslationErrors d) val ?start
          = Inr (s1, nk, ds)" and st: "stores r1 = stores s1"
        by (cases "processBundles (withoutTranslationErrors d) val ?start") auto
      from stores_cleanup [OF st] Inr acc other v nd show ?thesis
        by (simp add: handle_def Let_def)
    qed
  qed
  have steps: "if panicFree d val then
          (\<exists>r'. handle d r u = Inr r'
          \<and> Logger r' = Logger r @ Info [] ''received an update'' # concat (map (bundleLog d) val)
          \<and> (\<forall>resources \<in> set val. \<forall>e. snd (Translate d resources) = Some e \<longrightarrow>
                Error e ''errors detected during translation'' \<in> set (Logger r'))
          \<and> (\<forall>key. watchable_Load (InfraIR r') key
                = map_of (rev (produced (validInfraIR d) d val)) key)
          \<and> (\<forall>key. watchable_Load (XdsIR r') key =
                (if key \<in> keys (InfraIR r) \<and> key \<notin> keys (produced (validInfraIR d) d val)
                 then None
                 else case map_of (rev (produced (validXdsIR d) d val)) key of
                        Some x \<Rightarrow> Some x
                      | None \<Rightarrow> watchable_Load (XdsIR r) key))
          \<and> errChan r' = errChan r @ produced (validationErrors d) d val
          \<and> (\<forall>kind name. watchable_Load (statusStore kind (ProviderResources r')) name =
                (if name \<in> keys (statusStore kind (ProviderResources r))
                      \<and> name \<notin> utils_NamespacedName ` set (produced (objectsOf kind) d val)
                 then None
                 else case map_of
                             (rev (statusEntries
                                     (filter (\<lambda>obj. \<not> (skipsZero kind \<and> IsZero d (Status obj)))
                                        (produced (objectsOf kind) d val)))) name of
                        Some st \<Rightarrow> Some st
                      | None \<Rightarrow> watchable_Load (statusStore kind (ProviderResources r)) name))
          \<and> (\<forall>ekey. watchable_Load (ExtensionPolicyStatuses (ProviderResources r')) ekey =
                (case map_of (rev (extStatusEntries d (produced ExtensionServerPolicies d val))) ekey of
                   Some st \<Rightarrow> Some st
                 | None \<Rightarrow> watchable_Load (ExtensionPolicyStatuses (ProviderResources r)) ekey)))
        else (\<exists>p. handle d r u = Inl p)"
    if nd: "\<not> Delete u" and v: "Value u = Some val" for val
  proof (cases "panicFree d val")
    case False
    show ?thesis
      unfolding if_not_P [OF False] by (rule handle_value_panic [OF nd v False])
  next
    case True
    from handle_value [OF nd v True, of r]
    obtain r' where h: "handle d r u = Inr r'"
      by blast
    note s = state_after_value [OF h nd v]
    have logged: "Error e ''errors detected during translation'' \<in> set (Logger r')"
      if mem: "resources \<in> set val" and e: "snd (Translate d resources) = Some e"
      for resources e
    proof -
      from e have "Error e ''errors detected during translation'' \<in> set (bundleLog d resources)"
        by (simp add: bundleLog_def translationLog_def)
      with mem show ?thesis
        unfolding s(5) by auto
    qed
    show ?thesis
      unfolding if_P [OF True] using h s(5) logged s(2) s(3) s(4) s(6) s(7) by blast
  qed
  from same steps show ?thesis
    by blast
qed

theorem translation_error_is_only_logged_witness:
  "\<not> Delete (valueEvent [''accepted''])
   \<and> Value (valueEvent [''accepted'']) = Some [''accepted'']
   \<and> panicFree exDeps [''accepted'']
   \<and> snd (Translate exDeps ''accepted'') = Some ''partial translation''
   \<and> handle exDeps emptyRunner (valueEvent [''route'']) = Inr afterRoute
   \<and> handle exDeps afterRoute (valueEvent [''accepted'']) = Inr afterRouteAccepted
   \<and> watchable_Load (InfraIR afterRoute) ''gw1'' = Some ''infra''
   \<and> watchable_Load (InfraIR afterRouteAccepted) ''gw1'' = None
   \<and> watchable_Load (InfraIR afterRouteAccepted) ''gw2'' = Some ''infra''
   \<and> watchable_Load (XdsIR afterRoute) ''gw1'' = Some ''xds''
   \<and> watchable_Load (XdsIR afterRouteAccepted) ''gw1'' = None
   \<and> watchable_Load (XdsIR afterRouteAccepted) ''gw2'' = Some ''xds''
   \<and> watchable_Load (HTTPRouteStatuses (ProviderResources afterRoute)) (''ns'', ''rt'') = Some [''Accepted'']
   \<and> watchable_Load (HTTPRouteStatuses (ProviderResources afterRouteAccepted)) (''ns'', ''rt'') = None
   \<and> watchable_Load (GatewayStatuses (ProviderResources afterRouteAccepted)) (''ns'', ''gw'') = Some [''Programmed'']
   \<and> watchable_Load (SecurityPolicyStatuses (ProviderResources afterRouteAccepted)) (''ns'', ''sp'') = Some [''Accepted'']
   \<and> watchable_Load (ExtensionPolicyStatuses (ProviderResources afterRouteAccepted)) ((''ns'', ''ext''), ''example.io'', ''v1'', ''Foo'') = Some [''Accepted'']
   \<and> Error ''partial translation'' ''errors detected during translation'' \<in> set (Logger afterRouteAccepted)
   \<and> map_sum id stores (handle exDeps afterRoute (valueEvent [''accepted'']))
       = map_sum id stores (handle (withoutTranslationErrors exDeps) afterRoute (valueEvent [''accepted'']))
   \<and> (\<exists>r'. handle exDeps afterRoute (valueEvent [''accepted'']) = Inr r'
          \<and> Logger r' = Logger afterRoute @ Info [] ''received an update'' # concat (map (bundleLog exDeps) [''accepted''])
          \<and> (\<forall>resources \<in> set [''accepted'']. \<forall>e. snd (Translate exDeps resources) = Some e \<longrightarrow>
                Error e ''errors detected during translation'' \<in> set (Logger r'))
          \<and> (\<forall>key. watchable_Load (InfraIR r') key
                = map_of (rev (produced (validInfraIR exDeps) exDeps [''accepted''])) key)
          \<and> (\<forall>key. watchable_Load (XdsIR r') key =
                (if key \<in> keys (InfraIR afterRoute) \<and> key \<notin> keys (produced (validInfraIR exDeps) exDeps [''accepted''])
                 then None
                 else case map_of (rev (produced (validXdsIR exDeps) exDeps [''accepted''])) key of
                        Some x \<Rightarrow> Some x
                      | None \<Rightarrow> watchable_Load (XdsIR afterRoute) key))
          \<and> errChan r' = errChan afterRoute @ produced (validationErrors exDeps) exDeps [''accepted'']
          \<and> (\<forall>kind name. watchable_Load (statusStore kind (ProviderResources r')) name =
                (if name \<in> keys (statusStore kind (ProviderResources afterRoute))
                      \<and> name \<notin> utils_NamespacedName ` set (produced (objectsOf kind) exDeps [''accepted''])
                 then None
                 else case map_of
                             (rev (statusEntries
                                     (filter (\<lambda>obj. \<not> (skipsZero kind \<and> IsZero exDeps (Status obj)))
                                        (produced (objectsOf kind) exDeps [''accepted''])))) name of
                        Some st \<Rightarrow> Some st
                      | None \<Rightarrow> watchable_Load (statusStore kind (ProviderResources afterRoute)) name))
          \<and> (\<forall>ekey. watchable_Load (ExtensionPolicyStatuses (ProviderResources r')) ekey =
                (case map_of (rev (extStatusEntries exDeps (produced ExtensionServerPolicies exDeps [''accepted'']))) ekey of
                   Some st \<Rightarrow> Some st
                 | None \<Rightarrow> watchable_Load (ExtensionPolicyStatuses (ProviderResources afterRoute)) ekey)))"
proof -
  have a: "\<not> Delete (valueEvent [''accepted''])"
    by (simp add: valueEvent_def)
  have b: "Value (valueEvent [''accepted'']) = Some [''accepted'']"
    by (simp add: valueEvent_def)
  have c: "panicFree exDeps [''accepted'']"
    by code_simp
  have e: "snd (Translate exDeps ''accepted'') = Some ''partial translation''"
    by code_simp
  have r0: "handle exDeps emptyRunner (valueEvent [''route'']) = Inr afterRoute"
    by code_simp
  have h: "handle exDeps afterRoute (valueEvent [''accepted'']) = Inr afterRouteAccepted"
    by code_simp
  have i1: "watchable_Load (InfraIR afterRoute) ''gw1'' = Some ''infra''"
    by code_simp
  have i2: "watchable_Load (InfraIR afterRouteAccepted) ''gw1'' = None"
    by code_simp
  have i3: "watchable_Load (InfraIR afterRouteAccepted) ''gw2'' = Some ''infra''"
    by code_simp
  have x1: "watchable_Load (XdsIR afterRoute) ''gw1'' = Some ''xds''"
    by code_simp
  have x2: "watchable_Load (XdsIR afterRouteAccepted) ''gw1'' = None"
    by code_simp
  have x3: "watchable_Load (XdsIR afterRouteAccepted) ''gw2'' = Some ''xds''"
    by code_simp
  have s1: "watchable_Load (HTTPRouteStatuses (ProviderResources afterRoute)) (''ns'', ''rt'') = Some [''Accepted'']"
    by code_simp
  have s2: "watchable_Load (HTTPRouteStatuses (ProviderResources afterRouteAccepted)) (''ns'', ''rt'') = None"
    by code_simp
  have s3: "watchable_Load (GatewayStatuses (ProviderResources afterRouteAccepted)) (''ns'', ''gw'') = Some [''Programmed'']"
    by code_simp
  have s4: "watchable_Load (SecurityPolicyStatuses (ProviderResources afterRouteAccepted)) (''ns'', ''sp'') = Some [''Accepted'']"
    by code_simp
  have s5: "watchable_Load (ExtensionPolicyStatuses (ProviderResources afterRouteAccepted)) ((''ns'', ''ext''), ''example.io'', ''v1'', ''Foo'') = Some [''Accepted'']"
    by code_simp
  have l: "Error ''partial translation'' ''errors detected during translation'' \<in> set (Logger afterRouteAccepted)"
    by code_simp
  note t = translation_error_is_only_logged [of exDeps afterRoute "valueEvent [''accepted'']"]
  from t have s: "map_sum id stores (handle exDeps afterRoute (valueEvent [''accepted'']))
       = map_sum id stores (handle (withoutTranslationErrors exDeps) afterRoute (valueEvent [''accepted'']))"
    by (rule conjunct1)
  from t [THEN conjunct2, THEN spec, THEN mp, OF conjI, OF a b]
  have p: "(\<exists>r'. handle exDeps afterRoute (valueEvent [''accepted'']) = Inr r'
          \<and> Logger r' = Logger afterRoute @ Info [] ''received an update'' # concat (map (bundleLog exDeps) [''accepted''])
          \<and> (\<forall>resources \<in> set [''accepted'']. \<forall>e. snd (Translate exDeps resources) = Some e \<longrightarrow>
                Error e ''errors detected during translation'' \<in> set (Logger r'))
          \<and> (\<forall>key. watchable_Load (InfraIR r') key
                = map_of (rev (produced (validInfraIR exDeps) exDeps [''accepted''])) key)
          \<and> (\<forall>key. watchable_Load (XdsIR r') key =
                (if key \<in> keys (InfraIR afterRoute) \<and> key \<notin> keys (produced (validInfraIR exDeps) exDeps [''accepted''])
                 then None
                 else case map_of (rev (produced (validXdsIR exDeps) exDeps [''accepted''])) key of
                        Some x \<Rightarrow> Some x
                      | None \<Rightarrow> watchable_Load (XdsIR afterRoute) key))
          \<and> errChan r' = errChan afterRoute @ produced (validationErrors exDeps) exDeps [''accepted'']
          \<and> (\<forall>kind name. watchable_Load (statusStore kind (ProviderResources r')) name =
                (if name \<in> keys (statusStore kind (ProviderResources afterRoute))
                      \<and> name \<notin> utils_NamespacedName ` set (produced (objectsOf kind) exDeps [''accepted''])
                 then None
                 else case map_of
                             (rev (statusEntries
                                     (filter (\<lambda>obj. \<not> (skipsZero kind \<and> IsZero exDeps (Status obj)))
                                        (produced (objectsOf kind) exDeps [''accepted''])))) name of
                        Some st \<Rightarrow> Some st
                      | None \<Rightarrow> watchable_Load (statusStore kind (ProviderResources afterRoute)) name))
          \<and> (\<forall>ekey. watchable_Load (ExtensionPolicyStatuses (ProviderResources r')) ekey =
                (case map_of (rev (extStatusEntries exDeps (produced ExtensionServerPolicies exDeps [''accepted'']))) ekey of
                   Some st \<Rightarrow> Some st
                 | None \<Rightarrow> watchable_Load (ExtensionPolicyStatuses (ProviderResources afterRoute)) ekey)))"
    by (simp only: c if_True)
  from a b c e r0 h i1 i2 i3 x1 x2 x3 s1 s2 s3 s4 s5 l s p show ?thesis
    by (intro conjI)
qed

end
